theory Spec2Isabelle
  imports Main "HOL-Library.Word" "HOL-Library.Signed_Division"
begin

unbundle bit_operations_syntax

section \<open>Machine model\<close>

text \<open>
  The program is C for Linux on an LP64 machine: \<open>unsigned char\<close>, \<open>unsigned short\<close>
  and \<open>int\<close>/\<open>unsigned int\<close> are 8, 16 and 32 bits wide. An \<open>int\<close> and an
  \<open>unsigned int\<close> are both a \<open>32 word\<close>; the signedness lies in the operation
  (\<open><\<close> on words is the unsigned comparison, \<open>sint\<close> reads the two's complement
  value). Signed overflow of \<open>addr + len\<close>, \<open>addr + i\<close>, \<open>i * inc\<close> and of the loop
  counters \<open>i += 2\<close>, \<open>i += 4\<close> is modelled as the wrap-around the hardware performs.

  Memory is the address space of the process, one byte per address. A pointer is a
  natural number; \<open>dev->addr + addr\<close> is the pointer \<open>dev_addr dev + unat addr\<close>.
  Every address can be read and written: the model has no page faults.
\<close>

type_synonym u8 = "8 word"
type_synonym u16 = "16 word"
type_synonym u32 = "32 word"
type_synonym memory = "nat \<Rightarrow> u8"

text \<open>
  \<open>__BYTE_ORDER\<close> comes from the C library's headers and is fixed when the program is
  built. The functions that test it take it as their first parameter.
\<close>

datatype byte_order = LITTLE_ENDIAN | BIG_ENDIAN

text \<open>
  The fields of \<open>device_t\<close> that the command interpreter uses: the memory mapped
  resource and the address passed to the access functions. The slot information, the
  file name and the file descriptor only serve to open the resource in \<open>main\<close>.
\<close>

record device_t =
  dev_maddr :: nat
  dev_size :: u32
  dev_offset :: u32
  dev_addr :: nat

text \<open>What the program prints, one event for each \<open>printf\<close>.\<close>

datatype event =
    Syntax_error            \<comment> \<open>\<open>Syntax error (use ? for help)\<close>\<close>
  | Invalid_address u32     \<comment> \<open>\<open>Error: invalid address (maximum allowed is %.8X\<close>\<close>
  | Row_label u32           \<comment> \<open>a new line and \<open>%.8X: \<close>\<close>
  | Hex_u8 u8               \<comment> \<open>\<open>%.2X \<close>\<close>
  | Hex_u16 u16             \<comment> \<open>\<open>%.4X \<close>\<close>
  | Hex_u32 u32             \<comment> \<open>\<open>%.8X \<close>\<close>
  | Newline
  | Endian_little           \<comment> \<open>\<open>Endian mode: little-endian\<close>\<close>
  | Endian_big              \<comment> \<open>\<open>Endian mode: big-endian\<close>\<close>
  | Help_text

text \<open>
  The state that the commands change: the mapped memory, the global \<open>big_endian\<close>
  and the standard output.
\<close>

record state =
  mem :: memory
  big_endian :: int
  stdout :: "event list"

definition print :: "state \<Rightarrow> event list \<Rightarrow> state" where
  "print st es = st\<lparr>stdout := stdout st @ es\<rparr>"

text \<open>\<open>static int big_endian = 0;\<close>\<close>

definition initial_state :: "memory \<Rightarrow> state" where
  "initial_state m = \<lparr>mem = m, big_endian = 0, stdout = []\<rparr>"

subsection \<open>Loads and stores in the byte order of the host\<close>

text \<open>
  A store through \<open>volatile unsigned short *\<close> or \<open>volatile unsigned int *\<close> lays the
  bytes of the value out in the byte order of the host, and a load reads them back in
  that order.
\<close>

definition store16 :: "byte_order \<Rightarrow> memory \<Rightarrow> nat \<Rightarrow> u16 \<Rightarrow> memory" where
  "store16 bo m p v =
     (if bo = LITTLE_ENDIAN
      then m(p := ucast v, p + 1 := ucast (drop_bit 8 v))
      else m(p := ucast (drop_bit 8 v), p + 1 := ucast v))"

definition load16 :: "byte_order \<Rightarrow> memory \<Rightarrow> nat \<Rightarrow> u16" where
  "load16 bo m p =
     (if bo = LITTLE_ENDIAN
      then ucast (m p) OR push_bit 8 (ucast (m (p + 1)))
      else ucast (m (p + 1)) OR push_bit 8 (ucast (m p)))"

definition store32 :: "byte_order \<Rightarrow> memory \<Rightarrow> nat \<Rightarrow> u32 \<Rightarrow> memory" where
  "store32 bo m p v =
     (if bo = LITTLE_ENDIAN
      then m(p := ucast v, p + 1 := ucast (drop_bit 8 v),
             p + 2 := ucast (drop_bit 16 v), p + 3 := ucast (drop_bit 24 v))
      else m(p := ucast (drop_bit 24 v), p + 1 := ucast (drop_bit 16 v),
             p + 2 := ucast (drop_bit 8 v), p + 3 := ucast v))"

definition load32 :: "byte_order \<Rightarrow> memory \<Rightarrow> nat \<Rightarrow> u32" where
  "load32 bo m p =
     (if bo = LITTLE_ENDIAN
      then ucast (m p) OR push_bit 8 (ucast (m (p + 1)))
           OR push_bit 16 (ucast (m (p + 2))) OR push_bit 24 (ucast (m (p + 3)))
      else ucast (m (p + 3)) OR push_bit 8 (ucast (m (p + 2)))
           OR push_bit 16 (ucast (m (p + 1))) OR push_bit 24 (ucast (m p)))"

text \<open>The macros of \<open><byteswap.h>\<close>, as the C library writes them.\<close>

definition bswap_16 :: "u16 \<Rightarrow> u16" where
  "bswap_16 x = (drop_bit 8 x AND 0xff) OR push_bit 8 (x AND 0xff)"

definition bswap_32 :: "u32 \<Rightarrow> u32" where
  "bswap_32 x =
     drop_bit 24 (x AND 0xff000000) OR drop_bit 8 (x AND 0x00ff0000)
     OR push_bit 8 (x AND 0x0000ff00) OR push_bit 24 (x AND 0x000000ff)"

section \<open>Raw pointer read/write access\<close>

text \<open>
  \<open>msync\<close> flushes the written bytes to the device; it does not change what the
  memory holds.
\<close>

definition write_8 :: "device_t \<Rightarrow> memory \<Rightarrow> u32 \<Rightarrow> u8 \<Rightarrow> memory" where
  "write_8 dev m addr data = m(dev_addr dev + unat addr := data)"

definition read_8 :: "device_t \<Rightarrow> memory \<Rightarrow> u32 \<Rightarrow> u8" where
  "read_8 dev m addr = m (dev_addr dev + unat addr)"

definition write_le16 :: "byte_order \<Rightarrow> device_t \<Rightarrow> memory \<Rightarrow> u32 \<Rightarrow> u16 \<Rightarrow> memory" where
  "write_le16 bo dev m addr data =
     store16 bo m (dev_addr dev + unat addr)
       (if bo \<noteq> LITTLE_ENDIAN then bswap_16 data else data)"

definition read_le16 :: "byte_order \<Rightarrow> device_t \<Rightarrow> memory \<Rightarrow> u32 \<Rightarrow> u16" where
  "read_le16 bo dev m addr =
     (let data = load16 bo m (dev_addr dev + unat addr)
      in if bo \<noteq> LITTLE_ENDIAN then bswap_16 data else data)"

definition write_be16 :: "byte_order \<Rightarrow> device_t \<Rightarrow> memory \<Rightarrow> u32 \<Rightarrow> u16 \<Rightarrow> memory" where
  "write_be16 bo dev m addr data =
     store16 bo m (dev_addr dev + unat addr)
       (if bo = LITTLE_ENDIAN then bswap_16 data else data)"

definition read_be16 :: "byte_order \<Rightarrow> device_t \<Rightarrow> memory \<Rightarrow> u32 \<Rightarrow> u16" where
  "read_be16 bo dev m addr =
     (let data = load16 bo m (dev_addr dev + unat addr)
      in if bo = LITTLE_ENDIAN then bswap_16 data else data)"

definition write_le32 :: "byte_order \<Rightarrow> device_t \<Rightarrow> memory \<Rightarrow> u32 \<Rightarrow> u32 \<Rightarrow> memory" where
  "write_le32 bo dev m addr data =
     store32 bo m (dev_addr dev + unat addr)
       (if bo \<noteq> LITTLE_ENDIAN then bswap_32 data else data)"

definition read_le32 :: "byte_order \<Rightarrow> device_t \<Rightarrow> memory \<Rightarrow> u32 \<Rightarrow> u32" where
  "read_le32 bo dev m addr =
     (let data = load32 bo m (dev_addr dev + unat addr)
      in if bo \<noteq> LITTLE_ENDIAN then bswap_32 data else data)"

definition write_be32 :: "byte_order \<Rightarrow> device_t \<Rightarrow> memory \<Rightarrow> u32 \<Rightarrow> u32 \<Rightarrow> memory" where
  "write_be32 bo dev m addr data =
     store32 bo m (dev_addr dev + unat addr)
       (if bo = LITTLE_ENDIAN then bswap_32 data else data)"

definition read_be32 :: "byte_order \<Rightarrow> device_t \<Rightarrow> memory \<Rightarrow> u32 \<Rightarrow> u32" where
  "read_be32 bo dev m addr =
     (let data = load32 bo m (dev_addr dev + unat addr)
      in if bo = LITTLE_ENDIAN then bswap_32 data else data)"

text \<open>
  The commands choose the access function by the global \<open>big_endian\<close>:
  \<open>if (big_endian == 0) ..le..(..) else ..be..(..)\<close>.
\<close>

definition write_16 :: "byte_order \<Rightarrow> int \<Rightarrow> device_t \<Rightarrow> memory \<Rightarrow> u32 \<Rightarrow> u16 \<Rightarrow> memory" where
  "write_16 bo be dev m addr d16 =
     (if be = 0 then write_le16 bo dev m addr d16 else write_be16 bo dev m addr d16)"

definition read_16 :: "byte_order \<Rightarrow> int \<Rightarrow> device_t \<Rightarrow> memory \<Rightarrow> u32 \<Rightarrow> u16" where
  "read_16 bo be dev m addr =
     (if be = 0 then read_le16 bo dev m addr else read_be16 bo dev m addr)"

definition write_32 :: "byte_order \<Rightarrow> int \<Rightarrow> device_t \<Rightarrow> memory \<Rightarrow> u32 \<Rightarrow> u32 \<Rightarrow> memory" where
  "write_32 bo be dev m addr d32 =
     (if be = 0 then write_le32 bo dev m addr d32 else write_be32 bo dev m addr d32)"

definition read_32 :: "byte_order \<Rightarrow> int \<Rightarrow> device_t \<Rightarrow> memory \<Rightarrow> u32 \<Rightarrow> u32" where
  "read_32 bo be dev m addr =
     (if be = 0 then read_le32 bo dev m addr else read_be32 bo dev m addr)"

section \<open>The C library's \<open>sscanf\<close>\<close>

text \<open>
  The commands read their fields with \<open>sscanf\<close>. The model covers the directives
  that the program's format strings use, as the GNU C library on LP64 performs them:
  \<^item> \<open>%*c\<close> reads one character and stores nothing;
  \<^item> white space in the format skips any white space of the input;
  \<^item> \<open>%x\<close> and \<open>%d\<close> skip white space, read an optional sign and the longest run of
    digits (after \<open>0x\<close> or \<open>0X\<close> for \<open>%x\<close>), convert it as \<open>strtoul\<close> and
    \<open>strtol\<close> do (a value that does not fit a \<open>long\<close> is clamped) and store the low
    32 bits;
  \<^item> \<open>%c\<close> reads one character and stores it.
  The result is the number of values stored, or \<open>EOF\<close> (\<open>-1\<close>) when the input
  ends before a directive can read a character and nothing has been stored yet. A
  variable whose directive is not reached keeps the value it had.
\<close>

datatype directive = Skip_c | White | Conv_x | Conv_d | Conv_c

datatype scan_item = Num u32 | Chr char

definition isspace :: "char \<Rightarrow> bool" where
  "isspace c = (c \<in> set [CHR '' '', CHR 0x09, CHR 0x0A, CHR 0x0B, CHR 0x0C, CHR 0x0D])"

definition digit_table :: "(char \<times> nat) list" where
  "digit_table =
     [(CHR ''0'', 0), (CHR ''1'', 1), (CHR ''2'', 2), (CHR ''3'', 3), (CHR ''4'', 4),
      (CHR ''5'', 5), (CHR ''6'', 6), (CHR ''7'', 7), (CHR ''8'', 8), (CHR ''9'', 9)]"

definition xdigit_table :: "(char \<times> nat) list" where
  "xdigit_table = digit_table @
     [(CHR ''a'', 10), (CHR ''b'', 11), (CHR ''c'', 12), (CHR ''d'', 13), (CHR ''e'', 14),
      (CHR ''f'', 15), (CHR ''A'', 10), (CHR ''B'', 11), (CHR ''C'', 12), (CHR ''D'', 13),
      (CHR ''E'', 14), (CHR ''F'', 15)]"

definition digit_val :: "nat \<Rightarrow> char \<Rightarrow> nat option" where
  "digit_val base c = map_of (if base = 16 then xdigit_table else digit_table) c"

definition is_digit :: "nat \<Rightarrow> char \<Rightarrow> bool" where
  "is_digit base c = (digit_val base c \<noteq> None)"

definition digits_value :: "nat \<Rightarrow> string \<Rightarrow> nat" where
  "digits_value base ds = foldl (\<lambda>n c. base * n + the (digit_val base c)) 0 ds"

text \<open>\<open>strtoul\<close> and \<open>strtol\<close> on a sign and a digit string, stored into 32 bits.\<close>

definition strtoul_u32 :: "bool \<Rightarrow> nat \<Rightarrow> u32" where
  "strtoul_u32 neg n =
     word_of_int (if 2 ^ 64 \<le> n then 2 ^ 64 - 1 else if neg then - int n else int n)"

definition strtol_u32 :: "bool \<Rightarrow> nat \<Rightarrow> u32" where
  "strtol_u32 neg n =
     word_of_int (if neg then (if 2 ^ 63 < n then - (2 ^ 63) else - int n)
                  else (if 2 ^ 63 \<le> n then 2 ^ 63 - 1 else int n))"

definition strip_sign :: "string \<Rightarrow> bool \<times> string" where
  "strip_sign s =
     (case s of
        [] \<Rightarrow> (False, s)
      | c # r \<Rightarrow> if c = CHR ''-'' then (True, r) else if c = CHR ''+'' then (False, r)
                 else (False, s))"

text \<open>After \<open>0\<close> the library skips an \<open>x\<close> or \<open>X\<close>; the \<open>0\<close> counts as a digit.\<close>

definition strip_0x :: "string \<Rightarrow> string" where
  "strip_0x s =
     (case s of
        c # x # r \<Rightarrow> if c = CHR ''0'' \<and> (x = CHR ''x'' \<or> x = CHR ''X'') then c # r else s
      | _ \<Rightarrow> s)"

definition scan_number :: "nat \<Rightarrow> string \<Rightarrow> (u32 \<times> string) option" where
  "scan_number base s =
     (let (neg, s1) = strip_sign s;
          s2 = (if base = 16 then strip_0x s1 else s1);
          ds = takeWhile (is_digit base) s2
      in if ds = [] then None
         else Some ((if base = 16 then strtoul_u32 else strtol_u32) neg (digits_value base ds),
                    dropWhile (is_digit base) s2))"

definition input_failure :: "scan_item list \<Rightarrow> int \<times> scan_item list" where
  "input_failure acc = (if acc = [] then - 1 else int (length acc), acc)"

fun scan :: "directive list \<Rightarrow> string \<Rightarrow> scan_item list \<Rightarrow> int \<times> scan_item list" where
  "scan [] s acc = (int (length acc), acc)"
| "scan (White # ds) s acc = scan ds (dropWhile isspace s) acc"
| "scan (Skip_c # ds) s acc =
     (case s of [] \<Rightarrow> input_failure acc | c # r \<Rightarrow> scan ds r acc)"
| "scan (Conv_c # ds) s acc =
     (case s of [] \<Rightarrow> input_failure acc | c # r \<Rightarrow> scan ds r (acc @ [Chr c]))"
| "scan (Conv_x # ds) s acc =
     (case dropWhile isspace s of
        [] \<Rightarrow> input_failure acc
      | c # r \<Rightarrow>
          (case scan_number 16 (c # r) of
             None \<Rightarrow> (int (length acc), acc)
           | Some (v, rest) \<Rightarrow> scan ds rest (acc @ [Num v])))"
| "scan (Conv_d # ds) s acc =
     (case dropWhile isspace s of
        [] \<Rightarrow> input_failure acc
      | c # r \<Rightarrow>
          (case scan_number 10 (c # r) of
             None \<Rightarrow> (int (length acc), acc)
           | Some (v, rest) \<Rightarrow> scan ds rest (acc @ [Num v])))"

definition sscanf :: "string \<Rightarrow> directive list \<Rightarrow> int \<times> scan_item list" where
  "sscanf s fmt = scan fmt s []"

text \<open>
  The value of the \<open>k\<close>-th pointer argument after the call: what \<open>sscanf\<close> stored,
  or the value \<open>d\<close> that the variable had before.
\<close>

definition num_arg :: "scan_item list \<Rightarrow> nat \<Rightarrow> u32 \<Rightarrow> u32" where
  "num_arg vals k d =
     (if k < length vals then (case vals ! k of Num v \<Rightarrow> v | Chr c \<Rightarrow> d) else d)"

definition chr_arg :: "scan_item list \<Rightarrow> nat \<Rightarrow> char \<Rightarrow> char" where
  "chr_arg vals k d =
     (if k < length vals then (case vals ! k of Chr c \<Rightarrow> c | Num v \<Rightarrow> d) else d)"

text \<open>
  \<open>cmd[k]\<close> of a C string: the character, or the terminating \<open>'\0'\<close> right after the
  last one.
\<close>

definition char_at :: "string \<Rightarrow> nat \<Rightarrow> char" where
  "char_at cmd k = (if k < length cmd then cmd ! k else CHR 0x00)"

section \<open>The commands\<close>

subsection \<open>\<open>display_mem\<close>\<close>

text \<open>
  The loops of the three widths. The counter \<open>i\<close> is a C \<open>int\<close> that starts at 0 and
  is compared with the \<open>int\<close> \<open>len\<close>.

  In the 8-bit loop \<open>i++\<close> runs under \<open>i < len\<close>, so \<open>i\<close> never passes \<open>len\<close> and
  cannot overflow: the model counts in \<open>int\<close> and the loop always ends.

  In the 16-bit and 32-bit loops \<open>i += 2\<close> and \<open>i += 4\<close> can step over \<open>INT_MAX\<close>
  when \<open>len\<close> is within 1 or 3 of it. The counter is a \<open>32 word\<close> compared as a signed
  value, the addition wraps around as the hardware does, and such a loop never ends:
  the loops are partial functions, and \<open>None\<close> is the run that does not return.
  \<open>i % 16\<close> is C's remainder of the signed value (\<open>smod\<close>).
\<close>

definition row_label :: "u32 \<Rightarrow> int \<Rightarrow> state \<Rightarrow> state" where
  "row_label addr i st =
     (if i mod 16 = 0 then print st [Row_label (addr + word_of_int i)] else st)"

definition row_label_i32 :: "u32 \<Rightarrow> u32 \<Rightarrow> state \<Rightarrow> state" where
  "row_label_i32 addr i st =
     (if sint i smod 16 = 0 then print st [Row_label (addr + i)] else st)"

function display_loop8 :: "device_t \<Rightarrow> u32 \<Rightarrow> int \<Rightarrow> int \<Rightarrow> state \<Rightarrow> state" where
  "display_loop8 dev addr len i st =
     (if i < len
      then display_loop8 dev addr len (i + 1)
             (let st1 = row_label addr i st;
                  d8 = read_8 dev (mem st1) (addr + word_of_int i)
              in print st1 [Hex_u8 d8])
      else st)"
  by pat_completeness auto
termination
  by (relation "measure (\<lambda>(dev, addr, len, i, st). nat (len - i))") auto

partial_function (option) display_loop16 ::
  "byte_order \<Rightarrow> device_t \<Rightarrow> u32 \<Rightarrow> u32 \<Rightarrow> u32 \<Rightarrow> state \<Rightarrow> state option" where
  "display_loop16 bo dev addr len i st =
     (if sint i < sint len
      then display_loop16 bo dev addr len (i + 2)
             (let st1 = row_label_i32 addr i st;
                  d16 = read_16 bo (big_endian st1) dev (mem st1) (addr + i)
              in print st1 [Hex_u16 d16])
      else Some st)"

partial_function (option) display_loop32 ::
  "byte_order \<Rightarrow> device_t \<Rightarrow> u32 \<Rightarrow> u32 \<Rightarrow> u32 \<Rightarrow> state \<Rightarrow> state option" where
  "display_loop32 bo dev addr len i st =
     (if sint i < sint len
      then display_loop32 bo dev addr len (i + 4)
             (let st1 = row_label_i32 addr i st;
                  d32 = read_32 bo (big_endian st1) dev (mem st1) (addr + i)
              in print st1 [Hex_u32 d32])
      else Some st)"

text \<open>
  \<open>display_mem\<close> after its fields are read: the address check, the truncation of the
  length and the \<open>switch\<close> on the width. \<open>addr > dev->size\<close> and
  \<open>(addr + len) > dev->size\<close> compare an \<open>int\<close> with an \<open>unsigned int\<close>, so both
  sides are taken as unsigned. The result is \<open>None\<close> when the loop does not return.
\<close>

definition display_fields ::
  "byte_order \<Rightarrow> device_t \<Rightarrow> state \<Rightarrow> u32 \<Rightarrow> u32 \<Rightarrow> u32 \<Rightarrow> (int \<times> state) option" where
  "display_fields bo dev st width addr len =
     (if dev_size dev < addr then Some (0, print st [Invalid_address (dev_size dev)])
      else
        let len = (if dev_size dev < addr + len then dev_size dev else len)
        in if width = 8
           then Some (0, print (print (display_loop8 dev addr (sint len) 0 st) [Newline])
                           [Newline])
           else if width = 16
           then (case display_loop16 bo dev addr len 0 st of
                   None \<Rightarrow> None
                 | Some st1 \<Rightarrow> Some (0, print (print st1 [Newline]) [Newline]))
           else if width = 32
           then (case display_loop32 bo dev addr len 0 st of
                   None \<Rightarrow> None
                 | Some st1 \<Rightarrow> Some (0, print (print st1 [Newline]) [Newline]))
           else Some (0, print (print st [Syntax_error]) [Newline]))"

definition display_mem ::
  "byte_order \<Rightarrow> device_t \<Rightarrow> state \<Rightarrow> string \<Rightarrow> (int \<times> state) option" where
  "display_mem bo dev st cmd =
     (if char_at cmd 1 = CHR '' ''
      then
        (let (status, vals) = sscanf cmd [Skip_c, White, Conv_x, White, Conv_x]
         in if status \<noteq> 2 then Some (0, print st [Syntax_error])
            else display_fields bo dev st 32 (num_arg vals 0 0) (num_arg vals 1 0))
      else
        (let (status, vals) = sscanf cmd [Skip_c, Conv_d, White, Conv_x, White, Conv_x]
         in if status \<noteq> 3 then Some (0, print st [Syntax_error])
            else display_fields bo dev st
                   (num_arg vals 0 32) (num_arg vals 1 0) (num_arg vals 2 0)))"

subsection \<open>\<open>change_mem\<close>\<close>

definition change_fields ::
  "byte_order \<Rightarrow> device_t \<Rightarrow> state \<Rightarrow> u32 \<Rightarrow> u32 \<Rightarrow> u32 \<Rightarrow> int \<times> state" where
  "change_fields bo dev st width addr d32 =
     (if dev_size dev < addr then (0, print st [Invalid_address (dev_size dev)])
      else if width = 8
      then (0, st\<lparr>mem := write_8 dev (mem st) addr (ucast d32)\<rparr>)
      else if width = 16
      then (0, st\<lparr>mem := write_16 bo (big_endian st) dev (mem st) addr (ucast d32)\<rparr>)
      else if width = 32
      then (0, st\<lparr>mem := write_32 bo (big_endian st) dev (mem st) addr d32\<rparr>)
      else (0, print st [Syntax_error]))"

text \<open>
  \<open>d32\<close> has no initial value in the C function; it is only used after a call of
  \<open>sscanf\<close> that stored it.
\<close>

definition change_mem :: "byte_order \<Rightarrow> device_t \<Rightarrow> state \<Rightarrow> string \<Rightarrow> int \<times> state" where
  "change_mem bo dev st cmd =
     (if char_at cmd 1 = CHR '' ''
      then
        (let (status, vals) = sscanf cmd [Skip_c, White, Conv_x, White, Conv_x]
         in if status \<noteq> 2 then (0, print st [Syntax_error])
            else change_fields bo dev st 32 (num_arg vals 0 0) (num_arg vals 1 0))
      else
        (let (status, vals) = sscanf cmd [Skip_c, Conv_d, White, Conv_x, White, Conv_x]
         in if status \<noteq> 3 then (0, print st [Syntax_error])
            else change_fields bo dev st
                   (num_arg vals 0 32) (num_arg vals 1 0) (num_arg vals 2 0)))"

subsection \<open>\<open>fill_mem\<close>\<close>

text \<open>
  The loops run \<open>i\<close> from 0 while \<open>i < len\<close>, \<open>i < len/2\<close> or \<open>i < len/4\<close>, with
  C's division of \<open>int\<close> (towards zero, \<open>sdiv\<close>). The value \<open>d32 + i*inc\<close> and the
  address \<open>addr + 2*i\<close> are computed in 32 bits.
\<close>

function fill_loop8 ::
  "device_t \<Rightarrow> u32 \<Rightarrow> u32 \<Rightarrow> u32 \<Rightarrow> int \<Rightarrow> int \<Rightarrow> state \<Rightarrow> state" where
  "fill_loop8 dev addr d32 inc n i st =
     (if i < n
      then fill_loop8 dev addr d32 inc n (i + 1)
             (let d8 = (ucast (d32 + word_of_int i * inc) :: u8)
              in st\<lparr>mem := write_8 dev (mem st) (addr + word_of_int i) d8\<rparr>)
      else st)"
  by pat_completeness auto
termination
  by (relation "measure (\<lambda>(dev, addr, d32, inc, n, i, st). nat (n - i))") auto

function fill_loop16 ::
  "byte_order \<Rightarrow> device_t \<Rightarrow> u32 \<Rightarrow> u32 \<Rightarrow> u32 \<Rightarrow> int \<Rightarrow> int \<Rightarrow> state \<Rightarrow> state" where
  "fill_loop16 bo dev addr d32 inc n i st =
     (if i < n
      then fill_loop16 bo dev addr d32 inc n (i + 1)
             (let d16 = (ucast (d32 + word_of_int i * inc) :: u16)
              in st\<lparr>mem := write_16 bo (big_endian st) dev (mem st)
                                (addr + 2 * word_of_int i) d16\<rparr>)
      else st)"
  by pat_completeness auto
termination
  by (relation "measure (\<lambda>(bo, dev, addr, d32, inc, n, i, st). nat (n - i))") auto

function fill_loop32 ::
  "byte_order \<Rightarrow> device_t \<Rightarrow> u32 \<Rightarrow> u32 \<Rightarrow> u32 \<Rightarrow> int \<Rightarrow> int \<Rightarrow> state \<Rightarrow> state" where
  "fill_loop32 bo dev addr d32 inc n i st =
     (if i < n
      then fill_loop32 bo dev addr d32 inc n (i + 1)
             (st\<lparr>mem := write_32 bo (big_endian st) dev (mem st)
                            (addr + 4 * word_of_int i) (d32 + word_of_int i * inc)\<rparr>)
      else st)"
  by pat_completeness auto
termination
  by (relation "measure (\<lambda>(bo, dev, addr, d32, inc, n, i, st). nat (n - i))") auto

definition fill_fields ::
  "byte_order \<Rightarrow> device_t \<Rightarrow> state \<Rightarrow> u32 \<Rightarrow> u32 \<Rightarrow> u32 \<Rightarrow> u32 \<Rightarrow> u32 \<Rightarrow> int \<times> state" where
  "fill_fields bo dev st width addr d32 len inc =
     (if dev_size dev < addr then (0, print st [Invalid_address (dev_size dev)])
      else
        let len = (if dev_size dev < addr + len then dev_size dev else len)
        in if width = 8
           then (0, fill_loop8 dev addr d32 inc (sint len) 0 st)
           else if width = 16
           then (0, fill_loop16 bo dev addr d32 inc (sint len sdiv 2) 0 st)
           else if width = 32
           then (0, fill_loop32 bo dev addr d32 inc (sint len sdiv 4) 0 st)
           else (0, print st [Syntax_error]))"

text \<open>
  Both branches accept the results 3 and 4 of \<open>sscanf\<close>. The first sets \<open>inc = 1\<close>
  when 3 fields were stored, the second when 4 were. \<open>len\<close> and \<open>inc\<close> start at 0,
  \<open>width\<close> at 32.
\<close>

definition fill_mem :: "byte_order \<Rightarrow> device_t \<Rightarrow> state \<Rightarrow> string \<Rightarrow> int \<times> state" where
  "fill_mem bo dev st cmd =
     (if char_at cmd 1 = CHR '' ''
      then
        (let (status, vals) =
               sscanf cmd [Skip_c, White, Conv_x, White, Conv_x, White, Conv_x, White, Conv_x]
         in if status \<noteq> 3 \<and> status \<noteq> 4 then (0, print st [Syntax_error])
            else fill_fields bo dev st 32 (num_arg vals 0 0) (num_arg vals 1 0)
                   (num_arg vals 2 0) (if status = 3 then 1 else num_arg vals 3 0))
      else
        (let (status, vals) =
               sscanf cmd [Skip_c, Conv_d, White, Conv_x, White, Conv_x, White, Conv_x,
                           White, Conv_x]
         in if status \<noteq> 3 \<and> status \<noteq> 4 then (0, print st [Syntax_error])
            else fill_fields bo dev st (num_arg vals 0 32) (num_arg vals 1 0)
                   (num_arg vals 2 0) (num_arg vals 3 0)
                   (if status = 4 then 1 else num_arg vals 4 0)))"

subsection \<open>\<open>change_endian\<close>\<close>

definition change_endian :: "device_t \<Rightarrow> state \<Rightarrow> string \<Rightarrow> int \<times> state" where
  "change_endian dev st cmd =
     (let (status, vals) = sscanf cmd [Skip_c, Conv_c]
      in if status < 0
         then (0, print st [if big_endian st = 0 then Endian_little else Endian_big])
         else if status = 1
         then (let endian = chr_arg vals 0 (CHR 0x00)
               in if endian = CHR ''b'' then (0, st\<lparr>big_endian := 1\<rparr>)
                  else if endian = CHR ''l'' then (0, st\<lparr>big_endian := 0\<rparr>)
                  else (0, print st [Syntax_error]))
         else (0, print st [Syntax_error]))"

subsection \<open>The command loop\<close>

definition display_help :: "device_t \<Rightarrow> state \<Rightarrow> state" where
  "display_help dev st = print st [Help_text]"

definition process_command ::
  "byte_order \<Rightarrow> device_t \<Rightarrow> state \<Rightarrow> string \<Rightarrow> (int \<times> state) option" where
  "process_command bo dev st cmd =
     (let c = char_at cmd 0
      in if c = CHR 0x00 then Some (0, st)
         else if c = CHR ''?'' then Some (0, display_help dev st)
         else if c = CHR ''c'' \<or> c = CHR ''C'' then Some (change_mem bo dev st cmd)
         else if c = CHR ''d'' \<or> c = CHR ''D'' then display_mem bo dev st cmd
         else if c = CHR ''e'' \<or> c = CHR ''E'' then Some (change_endian dev st cmd)
         else if c = CHR ''f'' \<or> c = CHR ''F'' then Some (fill_mem bo dev st cmd)
         else if c = CHR ''q'' \<or> c = CHR ''Q'' then Some (- 1, st)
         else Some (0, st))"



declare display_loop8.simps [simp del] fill_loop8.simps [simp del]
  fill_loop16.simps [simp del] fill_loop32.simps [simp del]

section \<open>Vocabulary of the properties\<close>



text \<open>
  Concrete inputs: a region of 16 bytes and one of 2 GiB, a memory of zeros and a
  memory in which every byte holds the low 8 bits of its own address.
\<close>

definition dev16 :: device_t where
  "dev16 = \<lparr>dev_maddr = 0x10000, dev_size = 0x10, dev_offset = 0, dev_addr = 0x10000\<rparr>"

definition dev2g :: device_t where
  "dev2g = \<lparr>dev_maddr = 0x10000, dev_size = 0x80000000, dev_offset = 0, dev_addr = 0x10000\<rparr>"

definition zero_mem :: memory where
  "zero_mem = (\<lambda>p. 0)"

definition count_mem :: memory where
  "count_mem = (\<lambda>p. word_of_nat p)"

section \<open>Running the scanner on a given line\<close>

text \<open>The definitions that the simplifier unfolds to run \<open>sscanf\<close> on a concrete line.\<close>

lemmas scan_defs = sscanf_def scan_number_def strip_sign_def strip_0x_def is_digit_def
  digit_val_def digit_table_def xdigit_table_def digits_value_def strtoul_u32_def
  strtol_u32_def isspace_def input_failure_def num_arg_def chr_arg_def char_at_def

section \<open>Byte order: swaps, loads and stores\<close>

lemma mask_numerals:
  "(0xff :: u16) = mask 8" "(0xff :: u32) = mask 8" "(0xff00 :: u32) = push_bit 8 (mask 8)"
  "(0xff0000 :: u32) = push_bit 16 (mask 8)" "(0xff000000 :: u32) = push_bit 24 (mask 8)"
  by (simp_all add: mask_eq_exp_minus_1)

lemma bswap_16_bytes:
  "ucast (bswap_16 x) = (ucast (drop_bit 8 x) :: u8)"
  "ucast (drop_bit 8 (bswap_16 x)) = (ucast x :: u8)"
  unfolding bswap_16_def mask_numerals
  by (rule bit_eqI; auto simp add: bit_simps)+

lemma bswap_32_bytes:
  "ucast (bswap_32 x) = (ucast (drop_bit 24 x) :: u8)"
  "ucast (drop_bit 8 (bswap_32 x)) = (ucast (drop_bit 16 x) :: u8)"
  "ucast (drop_bit 16 (bswap_32 x)) = (ucast (drop_bit 8 x) :: u8)"
  "ucast (drop_bit 24 (bswap_32 x)) = (ucast x :: u8)"
  unfolding bswap_32_def mask_numerals
  by (rule bit_eqI; auto simp add: bit_simps)+

lemma bswap_16_twice: "bswap_16 (bswap_16 x) = x"
  unfolding bswap_16_def mask_numerals
  apply (rule bit_eqI)
  subgoal for n
    by (cases "n < 8") (auto simp add: bit_simps)
  done

lemma bswap_32_twice: "bswap_32 (bswap_32 x) = x"
  unfolding bswap_32_def mask_numerals
  apply (rule bit_eqI)
  subgoal for n
    by (cases "n < 8"; cases "n < 16"; cases "n < 24") (auto simp add: bit_simps)
  done

lemma load16_store16: "load16 bo (store16 bo m p v) p = v"
  unfolding load16_def store16_def
  by (rule bit_eqI) (auto simp add: bit_simps)

lemma load32_store32: "load32 bo (store32 bo m p v) p = v"
  unfolding load32_def store32_def
  apply (rule bit_eqI)
  subgoal for n
    by (cases "n < 8"; cases "n < 16"; cases "n < 24") (auto simp add: bit_simps)
  done

lemma read_8_write_8: "read_8 dev (write_8 dev m a d) a = d"
  by (simp add: read_8_def write_8_def)

lemma read_16_write_16: "read_16 bo be dev (write_16 bo be dev m a d) a = d"
  by (simp add: read_16_def write_16_def read_le16_def write_le16_def read_be16_def
      write_be16_def load16_store16 bswap_16_twice)

lemma read_32_write_32: "read_32 bo be dev (write_32 bo be dev m a d) a = d"
  by (simp add: read_32_def write_32_def read_le32_def write_le32_def read_be32_def
      write_be32_def load32_store32 bswap_32_twice)

text \<open>The bytes that a 16-bit and a 32-bit write leave in memory, for either host.\<close>

lemma write_16_bytes:
  "write_16 bo be dev m a d =
     (if be = 0
      then m(dev_addr dev + unat a := ucast d, dev_addr dev + unat a + 1 := ucast (drop_bit 8 d))
      else m(dev_addr dev + unat a := ucast (drop_bit 8 d), dev_addr dev + unat a + 1 := ucast d))"
  by (cases bo) (simp_all add: write_16_def write_le16_def write_be16_def store16_def bswap_16_bytes)

lemma write_32_bytes:
  "write_32 bo be dev m a d =
     (if be = 0
      then m(dev_addr dev + unat a := ucast d,
             dev_addr dev + unat a + 1 := ucast (drop_bit 8 d),
             dev_addr dev + unat a + 2 := ucast (drop_bit 16 d),
             dev_addr dev + unat a + 3 := ucast (drop_bit 24 d))
      else m(dev_addr dev + unat a := ucast (drop_bit 24 d),
             dev_addr dev + unat a + 1 := ucast (drop_bit 16 d),
             dev_addr dev + unat a + 2 := ucast (drop_bit 8 d),
             dev_addr dev + unat a + 3 := ucast d))"
  by (cases bo) (simp_all add: write_32_def write_le32_def write_be32_def store32_def bswap_32_bytes)





lemma low_bytes_of_u16:
  "(ucast (ucast (v :: u32) :: u16) :: u8) = ucast v"
  "(ucast (drop_bit 8 (ucast (v :: u32) :: u16)) :: u8) = ucast (drop_bit 8 v)"
  by (rule bit_eqI; auto simp add: bit_simps)+

section \<open>Bounds of the address arithmetic\<close>

lemma start_in_bounds: "unat addr + n \<le> unat s \<Longrightarrow> \<not> s < (addr :: u32)"
  by (simp add: word_less_nat_alt)

lemma end_in_bounds:
  assumes "unat addr + unat len \<le> unat (s :: u32)"
  shows "\<not> s < addr + len"
proof -
  have "unat s < 2 ^ 32"
    using unsigned_less [of s] by simp
  then have "unat addr + unat len < 2 ^ LENGTH(32)"
    using assms by simp
  then have "unat (addr + len) = unat addr + unat len"
    by (rule unat_add_lem [THEN iffD1])
  then show ?thesis
    using assms by (simp add: word_less_nat_alt)
qed

section \<open>The display loops\<close>



lemma sint_small:
  assumes "unat (len :: u32) < 2 ^ 31"
  shows "sint len = int (unat len)"
proof -
  have "int (unat len) < int (2 ^ 31)"
    using assms by (rule of_nat_less_iff [THEN iffD2])
  then have hi: "uint len < 2 ^ 31"
    by simp
  have "- (2 ^ 31) \<le> (0 :: int)"
    by simp
  also have "0 \<le> uint len"
    by simp
  finally have lo: "- (2 ^ 31) \<le> uint len" .
  have "signed_take_bit 31 (uint len) = uint len"
    using lo hi by (rule signed_take_bit_int_eq_self)
  then show ?thesis
    by (simp add: sint_uint)
qed














lemma display_fields_other_widths:
  "width \<noteq> 16 \<Longrightarrow> width \<noteq> 32 \<Longrightarrow> display_fields bo dev st width addr len \<noteq> None"
  by (simp add: display_fields_def Let_def)

section \<open>Status of the commands\<close>













section \<open>The fill loops leave the output alone\<close>

lemma fill_loop8_stdout: "stdout (fill_loop8 dev addr d32 inc n i st) = stdout st"
proof (induction dev addr d32 inc n i st rule: fill_loop8.induct)
  case (1 dev addr d32 inc n i st)
  then show ?case
    by (subst fill_loop8.simps) (simp add: Let_def)
qed

lemma fill_loop16_stdout: "stdout (fill_loop16 bo dev addr d32 inc n i st) = stdout st"
proof (induction bo dev addr d32 inc n i st rule: fill_loop16.induct)
  case (1 bo dev addr d32 inc n i st)
  then show ?case
    by (subst fill_loop16.simps) (simp add: Let_def)
qed

lemma fill_loop32_stdout: "stdout (fill_loop32 bo dev addr d32 inc n i st) = stdout st"
proof (induction bo dev addr d32 inc n i st rule: fill_loop32.induct)
  case (1 bo dev addr d32 inc n i st)
  then show ?case
    by (subst fill_loop32.simps) (simp add: Let_def)
qed

section \<open>Properties of the access functions\<close>




text \<open>
  C4: for an address with \<open>addr + width_bytes \<le> size\<close> and every value \<open>v\<close>, the read
  after the write of \<open>v\<close> at the same address and width returns \<open>v\<close> truncated to the
  width, with the little-endian and with the big-endian functions, on either host. The
  same holds through the commands: after \<open>change\<close> has written \<open>v\<close>, \<open>display\<close> of one
  unit at that address returns and prints the address and \<open>v\<close> truncated, in either
  mode.
\<close>

theorem read_after_write_roundtrip:
  "(unat addr + 1 \<le> unat (dev_size dev) \<longrightarrow>
      read_8 dev (write_8 dev m addr (ucast v)) addr = (ucast (v :: u32) :: u8)
    \<and> map_option (\<lambda>r. (fst r, stdout (snd r)))
        (display_fields bo dev (snd (change_fields bo dev st 8 addr v)) 8 addr 1)
        = Some (0, stdout st @ [Row_label addr, Hex_u8 (ucast v), Newline, Newline]))
   \<and> (unat addr + 2 \<le> unat (dev_size dev) \<longrightarrow>
      read_le16 bo dev (write_le16 bo dev m addr (ucast v)) addr = (ucast v :: u16)
    \<and> read_be16 bo dev (write_be16 bo dev m addr (ucast v)) addr = (ucast v :: u16)
    \<and> map_option (\<lambda>r. (fst r, stdout (snd r)))
        (display_fields bo dev (snd (change_fields bo dev st 16 addr v)) 16 addr 2)
        = Some (0, stdout st @ [Row_label addr, Hex_u16 (ucast v), Newline, Newline]))
   \<and> (unat addr + 4 \<le> unat (dev_size dev) \<longrightarrow>
      read_le32 bo dev (write_le32 bo dev m addr v) addr = v
    \<and> read_be32 bo dev (write_be32 bo dev m addr v) addr = v
    \<and> map_option (\<lambda>r. (fst r, stdout (snd r)))
        (display_fields bo dev (snd (change_fields bo dev st 32 addr v)) 32 addr 4)
        = Some (0, stdout st @ [Row_label addr, Hex_u32 v, Newline, Newline]))"
proof -
  have prim: "read_le16 bo dev (write_le16 bo dev m addr (ucast v)) addr = (ucast v :: u16)"
    "read_be16 bo dev (write_be16 bo dev m addr (ucast v)) addr = (ucast v :: u16)"
    "read_le32 bo dev (write_le32 bo dev m addr v) addr = v"
    "read_be32 bo dev (write_be32 bo dev m addr v) addr = v"
    by (simp_all add: read_le16_def write_le16_def read_be16_def write_be16_def
        read_le32_def write_le32_def read_be32_def write_be32_def
        load16_store16 load32_store32 bswap_16_twice bswap_32_twice)
  have c8: "map_option (\<lambda>r. (fst r, stdout (snd r)))
        (display_fields bo dev (snd (change_fields bo dev st 8 addr v)) 8 addr 1)
        = Some (0, stdout st @ [Row_label addr, Hex_u8 (ucast v), Newline, Newline])"
    if "unat addr + 1 \<le> unat (dev_size dev)"
  proof -
    have "\<not> dev_size dev < addr" "\<not> dev_size dev < addr + 1"
      using that start_in_bounds [of addr 1] end_in_bounds [of addr 1] by simp_all
    then show ?thesis
      by (simp add: display_fields_def change_fields_def display_loop8.simps row_label_def
          print_def read_8_write_8)
  qed
  have c16: "map_option (\<lambda>r. (fst r, stdout (snd r)))
        (display_fields bo dev (snd (change_fields bo dev st 16 addr v)) 16 addr 2)
        = Some (0, stdout st @ [Row_label addr, Hex_u16 (ucast v), Newline, Newline])"
    if "unat addr + 2 \<le> unat (dev_size dev)"
  proof -
    have "\<not> dev_size dev < addr" "\<not> dev_size dev < addr + 2"
      using that start_in_bounds [of addr 2] end_in_bounds [of addr 2] by simp_all
    then show ?thesis
      by (simp add: display_fields_def change_fields_def display_loop16.simps
          row_label_i32_def signed_modulo_int_def print_def read_16_write_16)
  qed
  have c32: "map_option (\<lambda>r. (fst r, stdout (snd r)))
        (display_fields bo dev (snd (change_fields bo dev st 32 addr v)) 32 addr 4)
        = Some (0, stdout st @ [Row_label addr, Hex_u32 v, Newline, Newline])"
    if "unat addr + 4 \<le> unat (dev_size dev)"
  proof -
    have "\<not> dev_size dev < addr" "\<not> dev_size dev < addr + 4"
      using that start_in_bounds [of addr 4] end_in_bounds [of addr 4] by simp_all
    then show ?thesis
      by (simp add: display_fields_def change_fields_def display_loop32.simps
          row_label_i32_def signed_modulo_int_def print_def read_32_write_32)
  qed
  show ?thesis
    using prim c8 c16 c32 by (simp add: read_8_write_8)
qed

theorem read_after_write_roundtrip_witness:
  "unat (0xC :: u32) + 4 \<le> unat (dev_size dev16)
   \<and> read_be32 LITTLE_ENDIAN dev16 (write_be32 LITTLE_ENDIAN dev16 zero_mem 0xC 0x12345678) 0xC
       = 0x12345678
   \<and> read_le16 BIG_ENDIAN dev16
        (write_le16 BIG_ENDIAN dev16 zero_mem 0xC (ucast (0x12345678 :: u32))) 0xC
       = ucast (0x12345678 :: u32)
   \<and> read_8 dev16 (write_8 dev16 zero_mem 0xC (ucast (0x12345678 :: u32))) 0xC
       = ucast (0x12345678 :: u32)
   \<and> map_option (\<lambda>r. (fst r, stdout (snd r)))
        (display_fields LITTLE_ENDIAN dev16
          (snd (change_fields LITTLE_ENDIAN dev16 (initial_state zero_mem) 32 0xC 0x12345678))
          32 0xC 4) = Some (0, [Row_label 0xC, Hex_u32 0x12345678, Newline, Newline])"
proof -
  have h: "unat (0xC :: u32) + 4 \<le> unat (dev_size dev16)"
    by (simp add: dev16_def)
  then have h2: "unat (0xC :: u32) + 2 \<le> unat (dev_size dev16)"
    and h1: "unat (0xC :: u32) + 1 \<le> unat (dev_size dev16)"
    by simp_all
  show ?thesis
    using h h1 h2
      read_after_write_roundtrip [of "0xC" dev16 zero_mem "0x12345678" LITTLE_ENDIAN
        "initial_state zero_mem"]
      read_after_write_roundtrip [of "0xC" dev16 zero_mem "0x12345678" BIG_ENDIAN
        "initial_state zero_mem"]
    by (simp add: initial_state_def)
qed

text \<open>
  C5: after \<open>eb\<close>, the command \<open>c16 4 196E\<close> leaves the bytes \<open>0x19, 0x6E\<close> at the
  addresses 4 and 5; after \<open>el\<close> it leaves \<open>0x6E, 0x19\<close>, on a little-endian and on a
  big-endian host alike. Both commands return the status 0 and change no other byte.
  A 16-bit or 32-bit write swaps the bytes of its value exactly when the byte order of
  the host differs from the selected mode.
\<close>

theorem endian_mode_byte_sequence:
  assumes "4 \<le> dev_size dev"
  shows "process_command bo dev st ''eb'' = Some (0, st\<lparr>big_endian := 1\<rparr>)
       \<and> process_command bo dev (st\<lparr>big_endian := 1\<rparr>) ''c16 4 196E'' =
           Some (0, st\<lparr>big_endian := 1,
                        mem := (mem st)(dev_addr dev + 4 := 0x19, dev_addr dev + 4 + 1 := 0x6E)\<rparr>)
       \<and> process_command bo dev st ''el'' = Some (0, st\<lparr>big_endian := 0\<rparr>)
       \<and> process_command bo dev (st\<lparr>big_endian := 0\<rparr>) ''c16 4 196E'' =
           Some (0, st\<lparr>big_endian := 0,
                        mem := (mem st)(dev_addr dev + 4 := 0x6E, dev_addr dev + 4 + 1 := 0x19)\<rparr>)
       \<and> read_8 dev (mem (snd (the (process_command bo dev
            (snd (the (process_command bo dev st ''eb''))) ''c16 4 196E'')))) 4 = 0x19
       \<and> read_8 dev (mem (snd (the (process_command bo dev
            (snd (the (process_command bo dev st ''eb''))) ''c16 4 196E'')))) 5 = 0x6E
       \<and> read_8 dev (mem (snd (the (process_command bo dev
            (snd (the (process_command bo dev st ''el''))) ''c16 4 196E'')))) 4 = 0x6E
       \<and> read_8 dev (mem (snd (the (process_command bo dev
            (snd (the (process_command bo dev st ''el''))) ''c16 4 196E'')))) 5 = 0x19
       \<and> write_16 bo be dev m a d =
           store16 bo m (dev_addr dev + unat a)
             (if (bo = BIG_ENDIAN) \<noteq> (be \<noteq> 0) then bswap_16 d else d)
       \<and> write_32 bo be dev m a d32 =
           store32 bo m (dev_addr dev + unat a)
             (if (bo = BIG_ENDIAN) \<noteq> (be \<noteq> 0) then bswap_32 d32 else d32)"
proof -
  have nle: "\<not> dev_size dev < 4"
    using assms by (simp add: not_less)
  have low: "(6510 :: u8) = 0x6E"
    by simp
  have eb: "process_command bo dev st ''eb'' = Some (0, st\<lparr>big_endian := 1\<rparr>)"
    by (simp add: process_command_def change_endian_def scan_defs)
  have el: "process_command bo dev st ''el'' = Some (0, st\<lparr>big_endian := 0\<rparr>)"
    by (simp add: process_command_def change_endian_def scan_defs)
  have cb: "process_command bo dev (st\<lparr>big_endian := 1\<rparr>) ''c16 4 196E'' =
           Some (0, st\<lparr>big_endian := 1,
                        mem := (mem st)(dev_addr dev + 4 := 0x19, dev_addr dev + 4 + 1 := 0x6E)\<rparr>)"
    using nle
    by (simp add: process_command_def change_mem_def change_fields_def scan_defs
        write_16_bytes low)
  have cl: "process_command bo dev (st\<lparr>big_endian := 0\<rparr>) ''c16 4 196E'' =
           Some (0, st\<lparr>big_endian := 0,
                        mem := (mem st)(dev_addr dev + 4 := 0x6E, dev_addr dev + 4 + 1 := 0x19)\<rparr>)"
    using nle
    by (simp add: process_command_def change_mem_def change_fields_def scan_defs
        write_16_bytes low)
  have rb: "read_8 dev (mem (snd (the (process_command bo dev
            (snd (the (process_command bo dev st ''eb''))) ''c16 4 196E'')))) 4 = 0x19"
    "read_8 dev (mem (snd (the (process_command bo dev
            (snd (the (process_command bo dev st ''eb''))) ''c16 4 196E'')))) 5 = 0x6E"
    by (simp_all add: eb cb read_8_def)
  have rl: "read_8 dev (mem (snd (the (process_command bo dev
            (snd (the (process_command bo dev st ''el''))) ''c16 4 196E'')))) 4 = 0x6E"
    "read_8 dev (mem (snd (the (process_command bo dev
            (snd (the (process_command bo dev st ''el''))) ''c16 4 196E'')))) 5 = 0x19"
    by (simp_all add: el cl read_8_def)
  have w16: "write_16 bo be dev m a d =
           store16 bo m (dev_addr dev + unat a)
             (if (bo = BIG_ENDIAN) \<noteq> (be \<noteq> 0) then bswap_16 d else d)"
    by (cases bo) (simp_all add: write_16_def write_le16_def write_be16_def)
  have w32: "write_32 bo be dev m a d32 =
           store32 bo m (dev_addr dev + unat a)
             (if (bo = BIG_ENDIAN) \<noteq> (be \<noteq> 0) then bswap_32 d32 else d32)"
    by (cases bo) (simp_all add: write_32_def write_le32_def write_be32_def)
  show ?thesis
    by (intro conjI eb el cb cl rb rl w16 w32)
qed

theorem endian_mode_byte_sequence_witness:
  "4 \<le> dev_size dev16
   \<and> read_8 dev16 (mem (snd (the (process_command LITTLE_ENDIAN dev16
        (snd (the (process_command LITTLE_ENDIAN dev16 (initial_state zero_mem) ''eb'')))
        ''c16 4 196E'')))) 4 = 0x19
   \<and> read_8 dev16 (mem (snd (the (process_command LITTLE_ENDIAN dev16
        (snd (the (process_command LITTLE_ENDIAN dev16 (initial_state zero_mem) ''eb'')))
        ''c16 4 196E'')))) 5 = 0x6E
   \<and> read_8 dev16 (mem (snd (the (process_command BIG_ENDIAN dev16
        (snd (the (process_command BIG_ENDIAN dev16 (initial_state zero_mem) ''el'')))
        ''c16 4 196E'')))) 4 = 0x6E
   \<and> read_8 dev16 (mem (snd (the (process_command BIG_ENDIAN dev16
        (snd (the (process_command BIG_ENDIAN dev16 (initial_state zero_mem) ''el'')))
        ''c16 4 196E'')))) 5 = 0x19"
proof -
  have h: "4 \<le> dev_size dev16"
    by (simp add: dev16_def)
  show ?thesis
    using h
      endian_mode_byte_sequence [OF h, of LITTLE_ENDIAN "initial_state zero_mem" 0 zero_mem 0 0 0]
      endian_mode_byte_sequence [OF h, of BIG_ENDIAN "initial_state zero_mem" 0 zero_mem 0 0 0]
    by blast
qed

section \<open>Properties of the commands\<close>

text \<open>
  C7: \<open>change\<close> reports the address error exactly when the start address is above the
  size of the region, and then writes nothing. When it is not, the write of the selected
  width is performed at \<open>addr\<close>, whatever \<open>addr + width_bytes\<close> is: the bytes of the
  value, truncated to the width, are stored at \<open>dev->addr + addr\<close> in the order of the
  endian mode, no other byte changes, nothing is printed, and the read of that width at
  \<open>addr\<close> returns the truncated value. Only the start address is checked.
\<close>

theorem change_checks_start_only:
  "(stdout (snd (change_fields bo dev st width addr v))
      = stdout st @ [Invalid_address (dev_size dev)] \<longleftrightarrow> dev_size dev < addr)
   \<and> (dev_size dev < addr \<longrightarrow>
        change_fields bo dev st width addr v = (0, print st [Invalid_address (dev_size dev)])
      \<and> mem (snd (change_fields bo dev st width addr v)) = mem st)
   \<and> (addr \<le> dev_size dev \<longrightarrow>
        change_fields bo dev st 8 addr v = (0, st\<lparr>mem := write_8 dev (mem st) addr (ucast v)\<rparr>)
      \<and> change_fields bo dev st 16 addr v =
          (0, st\<lparr>mem := (if big_endian st = 0 then write_le16 bo dev (mem st) addr (ucast v)
                          else write_be16 bo dev (mem st) addr (ucast v))\<rparr>)
      \<and> change_fields bo dev st 32 addr v =
          (0, st\<lparr>mem := (if big_endian st = 0 then write_le32 bo dev (mem st) addr v
                          else write_be32 bo dev (mem st) addr v)\<rparr>)
      \<and> mem (snd (change_fields bo dev st 8 addr v)) =
          (mem st)(dev_addr dev + unat addr := ucast v)
      \<and> mem (snd (change_fields bo dev st 16 addr v)) =
          (if big_endian st = 0
           then (mem st)(dev_addr dev + unat addr := ucast v,
                         dev_addr dev + unat addr + 1 := ucast (drop_bit 8 v))
           else (mem st)(dev_addr dev + unat addr := ucast (drop_bit 8 v),
                         dev_addr dev + unat addr + 1 := ucast v))
      \<and> mem (snd (change_fields bo dev st 32 addr v)) =
          (if big_endian st = 0
           then (mem st)(dev_addr dev + unat addr := ucast v,
                         dev_addr dev + unat addr + 1 := ucast (drop_bit 8 v),
                         dev_addr dev + unat addr + 2 := ucast (drop_bit 16 v),
                         dev_addr dev + unat addr + 3 := ucast (drop_bit 24 v))
           else (mem st)(dev_addr dev + unat addr := ucast (drop_bit 24 v),
                         dev_addr dev + unat addr + 1 := ucast (drop_bit 16 v),
                         dev_addr dev + unat addr + 2 := ucast (drop_bit 8 v),
                         dev_addr dev + unat addr + 3 := ucast v))
      \<and> read_8 dev (mem (snd (change_fields bo dev st 8 addr v))) addr = ucast v
      \<and> read_16 bo (big_endian st) dev (mem (snd (change_fields bo dev st 16 addr v))) addr
          = ucast v
      \<and> read_32 bo (big_endian st) dev (mem (snd (change_fields bo dev st 32 addr v))) addr
          = v
      \<and> stdout (snd (change_fields bo dev st 8 addr v)) = stdout st
      \<and> stdout (snd (change_fields bo dev st 16 addr v)) = stdout st
      \<and> stdout (snd (change_fields bo dev st 32 addr v)) = stdout st)"
proof -
  have err: "stdout (snd (change_fields bo dev st width addr v))
      = stdout st @ [Invalid_address (dev_size dev)] \<longleftrightarrow> dev_size dev < addr"
    by (auto simp add: change_fields_def print_def)
  have above: "change_fields bo dev st width addr v =
        (0, print st [Invalid_address (dev_size dev)])
      \<and> mem (snd (change_fields bo dev st width addr v)) = mem st"
    if "dev_size dev < addr"
    using that by (simp add: change_fields_def print_def)
  have inside: "change_fields bo dev st 8 addr v =
        (0, st\<lparr>mem := write_8 dev (mem st) addr (ucast v)\<rparr>)"
    "change_fields bo dev st 16 addr v =
          (0, st\<lparr>mem := (if big_endian st = 0 then write_le16 bo dev (mem st) addr (ucast v)
                          else write_be16 bo dev (mem st) addr (ucast v))\<rparr>)"
    "change_fields bo dev st 32 addr v =
          (0, st\<lparr>mem := (if big_endian st = 0 then write_le32 bo dev (mem st) addr v
                          else write_be32 bo dev (mem st) addr v)\<rparr>)"
    if "addr \<le> dev_size dev"
    using that by (auto simp add: change_fields_def write_16_def write_32_def not_less)
  have fields: "change_fields bo dev st 8 addr v =
        (0, st\<lparr>mem := write_8 dev (mem st) addr (ucast v)\<rparr>)"
    "change_fields bo dev st 16 addr v =
        (0, st\<lparr>mem := write_16 bo (big_endian st) dev (mem st) addr (ucast v)\<rparr>)"
    "change_fields bo dev st 32 addr v =
        (0, st\<lparr>mem := write_32 bo (big_endian st) dev (mem st) addr v\<rparr>)"
    if "addr \<le> dev_size dev"
    using that by (simp_all add: change_fields_def not_less)
  have bytes: "mem (snd (change_fields bo dev st 8 addr v)) =
          (mem st)(dev_addr dev + unat addr := ucast v)"
    "mem (snd (change_fields bo dev st 16 addr v)) =
          (if big_endian st = 0
           then (mem st)(dev_addr dev + unat addr := ucast v,
                         dev_addr dev + unat addr + 1 := ucast (drop_bit 8 v))
           else (mem st)(dev_addr dev + unat addr := ucast (drop_bit 8 v),
                         dev_addr dev + unat addr + 1 := ucast v))"
    "mem (snd (change_fields bo dev st 32 addr v)) =
          (if big_endian st = 0
           then (mem st)(dev_addr dev + unat addr := ucast v,
                         dev_addr dev + unat addr + 1 := ucast (drop_bit 8 v),
                         dev_addr dev + unat addr + 2 := ucast (drop_bit 16 v),
                         dev_addr dev + unat addr + 3 := ucast (drop_bit 24 v))
           else (mem st)(dev_addr dev + unat addr := ucast (drop_bit 24 v),
                         dev_addr dev + unat addr + 1 := ucast (drop_bit 16 v),
                         dev_addr dev + unat addr + 2 := ucast (drop_bit 8 v),
                         dev_addr dev + unat addr + 3 := ucast v))"
    if "addr \<le> dev_size dev"
    using fields [OF that]
    by (simp_all add: write_8_def write_16_bytes write_32_bytes low_bytes_of_u16)
  have reads: "read_8 dev (mem (snd (change_fields bo dev st 8 addr v))) addr = ucast v"
    "read_16 bo (big_endian st) dev (mem (snd (change_fields bo dev st 16 addr v))) addr
       = ucast v"
    "read_32 bo (big_endian st) dev (mem (snd (change_fields bo dev st 32 addr v))) addr = v"
    if "addr \<le> dev_size dev"
    using fields [OF that] by (simp_all add: read_8_write_8 read_16_write_16 read_32_write_32)
  have quiet: "stdout (snd (change_fields bo dev st 8 addr v)) = stdout st"
    "stdout (snd (change_fields bo dev st 16 addr v)) = stdout st"
    "stdout (snd (change_fields bo dev st 32 addr v)) = stdout st"
    if "addr \<le> dev_size dev"
    using fields [OF that] by simp_all
  show ?thesis
    by (intro conjI impI err; (elim conjE)?;
        (rule above [THEN conjunct1] above [THEN conjunct2] inside bytes reads quiet; assumption))
qed

theorem change_checks_start_only_witness:
  "(0xF :: u32) \<le> dev_size dev16 \<and> unat (dev_size dev16) < unat (0xF :: u32) + 4
   \<and> mem (snd (change_fields LITTLE_ENDIAN dev16 (initial_state zero_mem) 32 0xF 0x11223344)) =
       zero_mem(dev_addr dev16 + 0xF := 0x44, dev_addr dev16 + 0xF + 1 := 0x33,
                dev_addr dev16 + 0xF + 2 := 0x22, dev_addr dev16 + 0xF + 3 := 0x11)
   \<and> read_32 LITTLE_ENDIAN 0 dev16
        (mem (snd (change_fields LITTLE_ENDIAN dev16 (initial_state zero_mem) 32 0xF 0x11223344)))
        0xF = 0x11223344
   \<and> dev_size dev16 < 0x11
   \<and> change_fields LITTLE_ENDIAN dev16 (initial_state zero_mem) 32 0x11 0x11223344 =
       (0, print (initial_state zero_mem) [Invalid_address 0x10])"
proof -
  have h1: "(0xF :: u32) \<le> dev_size dev16" and h2: "dev_size dev16 < 0x11"
    and h3: "unat (dev_size dev16) < unat (0xF :: u32) + 4"
    by (simp_all add: dev16_def)
  have s: "dev_size dev16 = 0x10" "big_endian (initial_state zero_mem) = 0"
    "mem (initial_state zero_mem) = zero_mem"
    by (simp_all add: dev16_def initial_state_def)
  have b: "(287454020 :: u8) = 0x44" "(1122867 :: u8) = 0x33" "(4386 :: u8) = 0x22"
    by simp_all
  note inside = change_checks_start_only [of LITTLE_ENDIAN dev16 "initial_state zero_mem" 32
      "0xF" "0x11223344", THEN conjunct2, THEN conjunct2, THEN mp, OF h1]
  have t1: "mem (snd (change_fields LITTLE_ENDIAN dev16 (initial_state zero_mem) 32 0xF
        0x11223344)) =
       zero_mem(dev_addr dev16 + 0xF := 0x44, dev_addr dev16 + 0xF + 1 := 0x33,
                dev_addr dev16 + 0xF + 2 := 0x22, dev_addr dev16 + 0xF + 3 := 0x11)"
    using inside [THEN conjunct2, THEN conjunct2, THEN conjunct2, THEN conjunct2,
        THEN conjunct2, THEN conjunct1]
    by (simp add: s b)
  have t2: "read_32 LITTLE_ENDIAN 0 dev16
        (mem (snd (change_fields LITTLE_ENDIAN dev16 (initial_state zero_mem) 32 0xF
           0x11223344))) 0xF = 0x11223344"
    using inside [THEN conjunct2, THEN conjunct2, THEN conjunct2, THEN conjunct2,
        THEN conjunct2, THEN conjunct2, THEN conjunct2, THEN conjunct2, THEN conjunct1]
    by (simp add: s)
  have t3: "change_fields LITTLE_ENDIAN dev16 (initial_state zero_mem) 32 0x11 0x11223344 =
       (0, print (initial_state zero_mem) [Invalid_address 0x10])"
    using h2 change_checks_start_only [of LITTLE_ENDIAN dev16 "initial_state zero_mem" 32 "0x11"
        "0x11223344"]
    by (simp add: s)
  show ?thesis
    by (intro conjI h1 h2 h3 t1 t2 t3)
qed

text \<open>
  C9: the check of the start address is \<open>addr > size\<close>. With \<open>addr\<close> equal to the size
  of the region, \<open>display\<close>, \<open>change\<close> and \<open>fill\<close> report no address error and go on
  (an 8-bit \<open>change\<close> writes the byte right behind the region); every larger address
  gives the address error and nothing else.
\<close>

theorem start_address_bound_is_strict:
  "map_option (\<lambda>r. stdout (snd r)) (display_fields bo dev st width (dev_size dev) len)
      \<noteq> Some (stdout st @ [Invalid_address (dev_size dev)])
   \<and> display_fields bo dev st 8 (dev_size dev) len \<noteq> None
   \<and> stdout (snd (change_fields bo dev st width (dev_size dev) v))
      \<noteq> stdout st @ [Invalid_address (dev_size dev)]
   \<and> stdout (snd (fill_fields bo dev st width (dev_size dev) v len inc))
      \<noteq> stdout st @ [Invalid_address (dev_size dev)]
   \<and> change_fields bo dev st 8 (dev_size dev) v =
       (0, st\<lparr>mem := write_8 dev (mem st) (dev_size dev) (ucast v)\<rparr>)
   \<and> (dev_size dev < addr \<longrightarrow>
        display_fields bo dev st width addr len =
          Some (0, print st [Invalid_address (dev_size dev)])
      \<and> change_fields bo dev st width addr v = (0, print st [Invalid_address (dev_size dev)])
      \<and> fill_fields bo dev st width addr v len inc =
          (0, print st [Invalid_address (dev_size dev)]))"
proof -
  have d: "map_option (\<lambda>r. stdout (snd r)) (display_fields bo dev st width (dev_size dev) len)
      \<noteq> Some (stdout st @ [Invalid_address (dev_size dev)])"
  proof (cases "display_fields bo dev st width (dev_size dev) len")
    case None
    then show ?thesis by simp
  next
    case (Some r)
    then have "last (stdout (snd r)) = Newline"
      by (auto simp add: display_fields_def print_def Let_def split: if_splits option.splits)
    moreover have "last (stdout st @ [Invalid_address (dev_size dev)]) \<noteq> Newline"
      by simp
    ultimately have "stdout (snd r) \<noteq> stdout st @ [Invalid_address (dev_size dev)]"
      by metis
    then show ?thesis
      using Some by simp
  qed
  have d8: "display_fields bo dev st 8 (dev_size dev) len \<noteq> None"
    by (rule display_fields_other_widths) simp_all
  have c: "stdout (snd (change_fields bo dev st width (dev_size dev) v))
      \<noteq> stdout st @ [Invalid_address (dev_size dev)]"
    by (simp add: change_fields_def print_def)
  have f: "stdout (snd (fill_fields bo dev st width (dev_size dev) v len inc))
      \<noteq> stdout st @ [Invalid_address (dev_size dev)]"
    by (simp add: fill_fields_def print_def Let_def fill_loop8_stdout fill_loop16_stdout
        fill_loop32_stdout)
  have c8: "change_fields bo dev st 8 (dev_size dev) v =
       (0, st\<lparr>mem := write_8 dev (mem st) (dev_size dev) (ucast v)\<rparr>)"
    by (simp add: change_fields_def)
  have above: "display_fields bo dev st width addr len =
          Some (0, print st [Invalid_address (dev_size dev)])
      \<and> change_fields bo dev st width addr v = (0, print st [Invalid_address (dev_size dev)])
      \<and> fill_fields bo dev st width addr v len inc =
          (0, print st [Invalid_address (dev_size dev)])"
    if "dev_size dev < addr"
    using that by (simp add: display_fields_def change_fields_def fill_fields_def)
  show ?thesis
    using d d8 c f c8 above by blast
qed

theorem start_address_bound_is_strict_witness:
  "dev_size dev16 < 0x11
   \<and> display_fields LITTLE_ENDIAN dev16 (initial_state zero_mem) 8 0x11 1 =
       Some (0, print (initial_state zero_mem) [Invalid_address 0x10])
   \<and> map_option (\<lambda>r. stdout (snd r))
        (display_fields LITTLE_ENDIAN dev16 (initial_state zero_mem) 8 0x10 1)
       \<noteq> Some (stdout (initial_state zero_mem) @ [Invalid_address 0x10])
   \<and> change_fields LITTLE_ENDIAN dev16 (initial_state zero_mem) 8 0x10 0xAB =
       (0, (initial_state zero_mem)\<lparr>mem := write_8 dev16 zero_mem 0x10 0xAB\<rparr>)"
proof -
  have h: "dev_size dev16 < 0x11"
    by (simp add: dev16_def)
  have s: "dev_size dev16 = 0x10"
    by (simp add: dev16_def)
  show ?thesis
    using h
      start_address_bound_is_strict [where bo = LITTLE_ENDIAN and dev = dev16
        and st = "initial_state zero_mem" and width = 8 and len = 1 and v = "0xAB"
        and inc = 1 and addr = "0x11"]
    by (simp add: s initial_state_def)
qed




text \<open>
  C10: an endian command whose second character is neither \<open>b\<close> nor \<open>l\<close> prints the
  syntax error, returns 0 and leaves \<open>big_endian\<close> as it was; \<open>big_endian\<close> starts at 0,
  the little-endian mode.
\<close>

theorem endian_bad_suffix:
  assumes "x \<noteq> CHR ''b''" and "x \<noteq> CHR ''l''"
  shows "change_endian dev st (c # x # rest) = (0, print st [Syntax_error])
       \<and> big_endian (snd (change_endian dev st (c # x # rest))) = big_endian st
       \<and> process_command bo dev st (CHR ''e'' # x # rest) = Some (0, print st [Syntax_error])
       \<and> process_command bo dev st (CHR ''E'' # x # rest) = Some (0, print st [Syntax_error])
       \<and> big_endian (initial_state m) = 0"
  using assms
  by (simp add: change_endian_def process_command_def scan_defs print_def initial_state_def)

theorem endian_bad_suffix_witness:
  "CHR ''x'' \<noteq> CHR ''b'' \<and> CHR ''x'' \<noteq> CHR ''l''
   \<and> process_command LITTLE_ENDIAN dev16 (initial_state zero_mem) ''ex'' =
       Some (0, print (initial_state zero_mem) [Syntax_error])
   \<and> big_endian (snd (change_endian dev16 (initial_state zero_mem) ''ex'')) = 0"
proof -
  have h1: "CHR ''x'' \<noteq> CHR ''b''" and h2: "CHR ''x'' \<noteq> CHR ''l''"
    by simp_all
  show ?thesis
    using endian_bad_suffix [OF h1 h2, of dev16 "initial_state zero_mem" "CHR ''e''" "[]"
        LITTLE_ENDIAN zero_mem]
    by (simp add: initial_state_def print_def)
qed

text \<open>
  C1 at a failing input: in a region of 16 bytes, \<open>d8 4 100\<close> has \<open>addr + len > size\<close>.
  The truncation sets \<open>len\<close> to the size of the region, not to \<open>size - addr\<close>, so the
  command prints 16 bytes, from the addresses 4 to 19, instead of the 12 bytes from 4
  to 15: the last four are read behind the region. (Each byte of \<open>count_mem\<close> holds its
  own address.)
\<close>

theorem display_truncation_overrun:
  "dev_size dev16 < 0x4 + 0x100
   \<and> display_mem LITTLE_ENDIAN dev16 (initial_state count_mem) ''d8 4 100'' =
       Some (0, \<lparr>mem = count_mem, big_endian = 0,
            stdout = [Row_label 0x4,
                      Hex_u8 0x04, Hex_u8 0x05, Hex_u8 0x06, Hex_u8 0x07,
                      Hex_u8 0x08, Hex_u8 0x09, Hex_u8 0x0A, Hex_u8 0x0B,
                      Hex_u8 0x0C, Hex_u8 0x0D, Hex_u8 0x0E, Hex_u8 0x0F,
                      Hex_u8 0x10, Hex_u8 0x11, Hex_u8 0x12, Hex_u8 0x13,
                      Newline, Newline]\<rparr>)
   \<and> display_fields LITTLE_ENDIAN dev16 (initial_state count_mem) 8 0x4 0x100 =
       display_fields LITTLE_ENDIAN dev16 (initial_state count_mem) 8 0x4 0x10"
  by (simp add: display_mem_def scan_defs display_fields_def display_loop8.simps dev16_def
      initial_state_def print_def row_label_def read_8_def count_mem_def)

text \<open>
  C3 at a failing input: \<open>f32 0 A5 10 2\<close> supplies the increment in the form with a
  width. \<open>sscanf\<close> stores 5 fields, the command accepts only the results 3 and 4, so the
  line is a syntax error and nothing is written. The same fields without the width,
  \<open>f 0 A5 10 2\<close>, fill with the increment 2, and both forms without \<open>inc\<close> use 1.
\<close>

theorem fill_explicit_width_increment:
  "fill_mem LITTLE_ENDIAN dev16 (initial_state zero_mem) ''f32 0 A5 10 2'' =
       (0, print (initial_state zero_mem) [Syntax_error])
   \<and> fill_mem LITTLE_ENDIAN dev16 (initial_state zero_mem) ''f 0 A5 10 2'' =
       fill_fields LITTLE_ENDIAN dev16 (initial_state zero_mem) 32 0 0xA5 0x10 2
   \<and> fill_mem LITTLE_ENDIAN dev16 (initial_state zero_mem) ''f 0 A5 10'' =
       fill_fields LITTLE_ENDIAN dev16 (initial_state zero_mem) 32 0 0xA5 0x10 1
   \<and> fill_mem LITTLE_ENDIAN dev16 (initial_state zero_mem) ''f32 0 A5 10'' =
       fill_fields LITTLE_ENDIAN dev16 (initial_state zero_mem) 32 0 0xA5 0x10 1
   \<and> read_le32 LITTLE_ENDIAN dev16
        (mem (snd (fill_mem LITTLE_ENDIAN dev16 (initial_state zero_mem) ''f 0 A5 10 2''))) 4
       = 0xA7"
proof -
  have e: "fill_mem LITTLE_ENDIAN dev16 (initial_state zero_mem) ''f32 0 A5 10 2'' =
       (0, print (initial_state zero_mem) [Syntax_error])"
    by (simp add: fill_mem_def scan_defs)
  have d2: "fill_mem LITTLE_ENDIAN dev16 (initial_state zero_mem) ''f 0 A5 10 2'' =
       fill_fields LITTLE_ENDIAN dev16 (initial_state zero_mem) 32 0 0xA5 0x10 2"
    by (simp add: fill_mem_def scan_defs)
  have d1: "fill_mem LITTLE_ENDIAN dev16 (initial_state zero_mem) ''f 0 A5 10'' =
       fill_fields LITTLE_ENDIAN dev16 (initial_state zero_mem) 32 0 0xA5 0x10 1"
    by (simp add: fill_mem_def scan_defs)
  have w1: "fill_mem LITTLE_ENDIAN dev16 (initial_state zero_mem) ''f32 0 A5 10'' =
       fill_fields LITTLE_ENDIAN dev16 (initial_state zero_mem) 32 0 0xA5 0x10 1"
    by (simp add: fill_mem_def scan_defs)
  have r: "read_le32 LITTLE_ENDIAN dev16
        (mem (snd (fill_fields LITTLE_ENDIAN dev16 (initial_state zero_mem) 32 0 0xA5 0x10 2))) 4
       = 0xA7"
    by (simp add: fill_fields_def fill_loop32.simps signed_divide_int_def dev16_def
        initial_state_def write_32_def write_le32_def read_le32_def store32_def load32_def)
  show ?thesis
    using e d2 d1 w1 r by simp
qed

section \<open>The fill loops\<close>

text \<open>
  Addresses of the units: while \<open>addr + k * i\<close> stays below \<open>2 ^ 32\<close> the 32-bit sum
  is the sum of the numbers. A non-negative \<open>int\<close> is divided as in C.
\<close>

lemma unat_plus_of_nat:
  assumes "unat (a :: u32) + m < 2 ^ 32"
  shows "unat (a + word_of_nat m) = unat a + m"
proof -
  have m: "m < 2 ^ 32"
    using assms by simp
  then have um: "unat (word_of_nat m :: u32) = m"
    by (simp add: unat_of_nat)
  have "unat a + unat (word_of_nat m :: u32) < 2 ^ LENGTH(32)"
    using assms um by simp
  then have "unat (a + word_of_nat m) = unat a + unat (word_of_nat m :: u32)"
    by (rule unat_add_lem [THEN iffD1])
  then show ?thesis
    using um by simp
qed

lemma unit_address:
  assumes "0 \<le> i" and "unat (a :: u32) + k * nat i < 2 ^ 32"
  shows "unat (a + word_of_nat k * word_of_int i) = unat a + k * nat i"
proof -
  have "word_of_int i = (word_of_nat (nat i) :: u32)"
    using assms(1) by (simp add: word_of_nat_eq_iff of_nat_nat)
  then have "a + word_of_nat k * word_of_int i = a + word_of_nat (k * nat i)"
    by simp
  then show ?thesis
    using unat_plus_of_nat [OF assms(2)] by simp
qed

lemma sdiv_nonneg:
  "0 \<le> k \<Longrightarrow> k sdiv 4 = k div (4 :: int)"
  "0 \<le> k \<Longrightarrow> k sdiv 2 = k div (2 :: int)"
  by (cases "k = 0"; simp add: signed_divide_int_def)+

text \<open>
  Each loop leaves the bytes below its current unit alone, and after it every unit from
  the current one on holds its value.
\<close>

lemma unit_address4:
  "0 \<le> i \<Longrightarrow> unat a + 4 * nat i < 2 ^ 32 \<Longrightarrow>
     unat (a + 4 * word_of_int i :: u32) = unat a + 4 * nat i"
  using unit_address [of i a 4] by simp

lemma write_32_frame:
  "p < dev_addr dev + unat a \<Longrightarrow> write_32 bo be dev m a d p = m p"
  by (simp add: write_32_bytes)

lemma read_32_cong:
  assumes "\<And>k. k < 4 \<Longrightarrow> m1 (dev_addr dev + unat a + k) = m2 (dev_addr dev + unat a + k)"
  shows "read_32 bo be dev m1 a = read_32 bo be dev m2 a"
proof -
  have "m1 (dev_addr dev + unat a) = m2 (dev_addr dev + unat a)"
    using assms [of 0] by simp
  moreover have "m1 (dev_addr dev + unat a + 1) = m2 (dev_addr dev + unat a + 1)"
    using assms [of 1] by simp
  moreover have "m1 (dev_addr dev + unat a + 2) = m2 (dev_addr dev + unat a + 2)"
    using assms [of 2] by simp
  moreover have "m1 (dev_addr dev + unat a + 3) = m2 (dev_addr dev + unat a + 3)"
    using assms [of 3] by simp
  ultimately show ?thesis
    by (simp add: read_32_def read_le32_def read_be32_def load32_def)
qed

lemma fill_loop32_big_endian:
  "big_endian (fill_loop32 bo dev addr d32 inc n i st) = big_endian st"
proof (induction bo dev addr d32 inc n i st rule: fill_loop32.induct)
  case (1 bo dev addr d32 inc n i st)
  then show ?case
    by (subst fill_loop32.simps) simp
qed

lemma fill_loop32_frame:
  "0 \<le> i \<Longrightarrow> unat addr + 4 * nat n \<le> 2 ^ 32 \<Longrightarrow>
   p < dev_addr dev + unat addr + 4 * nat i \<Longrightarrow>
   mem (fill_loop32 bo dev addr d32 inc n i st) p = mem st p"
proof (induction bo dev addr d32 inc n i st rule: fill_loop32.induct)
  case (1 bo dev addr d32 inc n i st)
  show ?case
  proof (cases "i < n")
    case False
    then show ?thesis
      by (subst fill_loop32.simps) simp
  next
    case True
    let ?st = "st\<lparr>mem := write_32 bo (big_endian st) dev (mem st)
                            (addr + 4 * word_of_int i) (d32 + word_of_int i * inc)\<rparr>"
    have bound: "unat addr + 4 * nat i < 2 ^ 32"
      using True "1.prems"(1,2) by linarith
    have ua: "unat (addr + 4 * word_of_int i) = unat addr + 4 * nat i"
      using "1.prems"(1) bound by (rule unit_address4)
    have "mem (fill_loop32 bo dev addr d32 inc n (i + 1) ?st) p = mem ?st p"
      using True "1.prems" by (intro "1.IH") simp_all
    also have "mem ?st p = mem st p"
      using "1.prems"(3) ua by (simp add: write_32_frame)
    finally show ?thesis
      using True by (subst fill_loop32.simps) simp
  qed
qed

lemma fill_loop32_units:
  "0 \<le> i \<Longrightarrow> i \<le> j \<Longrightarrow> j < n \<Longrightarrow> unat addr + 4 * nat n \<le> 2 ^ 32 \<Longrightarrow>
   read_32 bo (big_endian st) dev (mem (fill_loop32 bo dev addr d32 inc n i st))
     (addr + 4 * word_of_int j) = d32 + word_of_int j * inc"
proof (induction bo dev addr d32 inc n i st rule: fill_loop32.induct)
  case (1 bo dev addr d32 inc n i st)
  let ?st = "st\<lparr>mem := write_32 bo (big_endian st) dev (mem st)
                          (addr + 4 * word_of_int i) (d32 + word_of_int i * inc)\<rparr>"
  have lt: "i < n"
    using "1.prems" by simp
  have unfold: "fill_loop32 bo dev addr d32 inc n i st
      = fill_loop32 bo dev addr d32 inc n (i + 1) ?st"
    using lt by (subst fill_loop32.simps) simp
  show ?case
  proof (cases "j = i")
    case False
    then have "read_32 bo (big_endian ?st) dev
        (mem (fill_loop32 bo dev addr d32 inc n (i + 1) ?st)) (addr + 4 * word_of_int j)
        = d32 + word_of_int j * inc"
      using lt "1.prems" by (intro "1.IH") simp_all
    then show ?thesis
      using unfold by simp
  next
    case True
    have bound: "unat addr + 4 * nat i < 2 ^ 32"
      using lt "1.prems"(1,4) by linarith
    have ua: "unat (addr + 4 * word_of_int i) = unat addr + 4 * nat i"
      using "1.prems"(1) bound by (rule unit_address4)
    have same: "mem (fill_loop32 bo dev addr d32 inc n (i + 1) ?st)
          (dev_addr dev + unat (addr + 4 * word_of_int i) + k)
        = mem ?st (dev_addr dev + unat (addr + 4 * word_of_int i) + k)" if "k < 4" for k
    proof (rule fill_loop32_frame)
      show "0 \<le> i + 1"
        using "1.prems"(1) by simp
      show "unat addr + 4 * nat n \<le> 2 ^ 32"
        by (rule "1.prems"(4))
      show "dev_addr dev + unat (addr + 4 * word_of_int i) + k
          < dev_addr dev + unat addr + 4 * nat (i + 1)"
        using that ua "1.prems"(1) by (simp add: nat_add_distrib)
    qed
    have "read_32 bo (big_endian st) dev
        (mem (fill_loop32 bo dev addr d32 inc n (i + 1) ?st)) (addr + 4 * word_of_int i)
        = read_32 bo (big_endian st) dev (mem ?st) (addr + 4 * word_of_int i)"
      using same by (rule read_32_cong)
    also have "\<dots> = d32 + word_of_int i * inc"
      by (simp add: read_32_write_32)
    finally show ?thesis
      using unfold True by simp
  qed
qed

lemma unit_address2:
  "0 \<le> i \<Longrightarrow> unat a + 2 * nat i < 2 ^ 32 \<Longrightarrow>
     unat (a + 2 * word_of_int i :: u32) = unat a + 2 * nat i"
  using unit_address [of i a 2] by simp

lemma write_16_frame:
  "p < dev_addr dev + unat a \<Longrightarrow> write_16 bo be dev m a d p = m p"
  by (simp add: write_16_bytes)

lemma read_16_cong:
  assumes "\<And>k. k < 2 \<Longrightarrow> m1 (dev_addr dev + unat a + k) = m2 (dev_addr dev + unat a + k)"
  shows "read_16 bo be dev m1 a = read_16 bo be dev m2 a"
proof -
  have "m1 (dev_addr dev + unat a) = m2 (dev_addr dev + unat a)"
    using assms [of 0] by simp
  moreover have "m1 (dev_addr dev + unat a + 1) = m2 (dev_addr dev + unat a + 1)"
    using assms [of 1] by simp
  ultimately show ?thesis
    by (simp add: read_16_def read_le16_def read_be16_def load16_def)
qed

lemma fill_loop16_big_endian:
  "big_endian (fill_loop16 bo dev addr d32 inc n i st) = big_endian st"
proof (induction bo dev addr d32 inc n i st rule: fill_loop16.induct)
  case (1 bo dev addr d32 inc n i st)
  then show ?case
    by (subst fill_loop16.simps) (simp add: Let_def)
qed

lemma fill_loop16_frame:
  "0 \<le> i \<Longrightarrow> unat addr + 2 * nat n \<le> 2 ^ 32 \<Longrightarrow>
   p < dev_addr dev + unat addr + 2 * nat i \<Longrightarrow>
   mem (fill_loop16 bo dev addr d32 inc n i st) p = mem st p"
proof (induction bo dev addr d32 inc n i st rule: fill_loop16.induct)
  case (1 bo dev addr d32 inc n i st)
  show ?case
  proof (cases "i < n")
    case False
    then show ?thesis
      by (subst fill_loop16.simps) (simp add: Let_def)
  next
    case True
    let ?st = "st\<lparr>mem := write_16 bo (big_endian st) dev (mem st)
                            (addr + 2 * word_of_int i) (ucast (d32 + word_of_int i * inc))\<rparr>"
    have bound: "unat addr + 2 * nat i < 2 ^ 32"
      using True "1.prems"(1,2) by linarith
    have ua: "unat (addr + 2 * word_of_int i) = unat addr + 2 * nat i"
      using "1.prems"(1) bound by (rule unit_address2)
    have "mem (fill_loop16 bo dev addr d32 inc n (i + 1) ?st) p = mem ?st p"
      using True "1.prems" "1.IH" [OF True] by (simp add: Let_def)
    also have "mem ?st p = mem st p"
      using "1.prems"(3) ua by (simp add: write_16_frame)
    finally show ?thesis
      using True by (subst fill_loop16.simps) (simp add: Let_def)
  qed
qed

lemma fill_loop16_units:
  "0 \<le> i \<Longrightarrow> i \<le> j \<Longrightarrow> j < n \<Longrightarrow> unat addr + 2 * nat n \<le> 2 ^ 32 \<Longrightarrow>
   read_16 bo (big_endian st) dev (mem (fill_loop16 bo dev addr d32 inc n i st))
     (addr + 2 * word_of_int j) = ucast (d32 + word_of_int j * inc)"
proof (induction bo dev addr d32 inc n i st rule: fill_loop16.induct)
  case (1 bo dev addr d32 inc n i st)
  let ?st = "st\<lparr>mem := write_16 bo (big_endian st) dev (mem st)
                          (addr + 2 * word_of_int i) (ucast (d32 + word_of_int i * inc))\<rparr>"
  have lt: "i < n"
    using "1.prems" by simp
  have unfold: "fill_loop16 bo dev addr d32 inc n i st
      = fill_loop16 bo dev addr d32 inc n (i + 1) ?st"
    using lt by (subst fill_loop16.simps) (simp add: Let_def)
  show ?case
  proof (cases "j = i")
    case False
    have "read_16 bo (big_endian ?st) dev
        (mem (fill_loop16 bo dev addr d32 inc n (i + 1) ?st)) (addr + 2 * word_of_int j)
        = ucast (d32 + word_of_int j * inc)"
      using False lt "1.prems" "1.IH" [OF lt] by (simp add: Let_def)
    then show ?thesis
      using unfold by simp
  next
    case True
    have bound: "unat addr + 2 * nat i < 2 ^ 32"
      using lt "1.prems"(1,4) by linarith
    have ua: "unat (addr + 2 * word_of_int i) = unat addr + 2 * nat i"
      using "1.prems"(1) bound by (rule unit_address2)
    have same: "mem (fill_loop16 bo dev addr d32 inc n (i + 1) ?st)
          (dev_addr dev + unat (addr + 2 * word_of_int i) + k)
        = mem ?st (dev_addr dev + unat (addr + 2 * word_of_int i) + k)" if "k < 2" for k
    proof (rule fill_loop16_frame)
      show "0 \<le> i + 1"
        using "1.prems"(1) by simp
      show "unat addr + 2 * nat n \<le> 2 ^ 32"
        by (rule "1.prems"(4))
      show "dev_addr dev + unat (addr + 2 * word_of_int i) + k
          < dev_addr dev + unat addr + 2 * nat (i + 1)"
        using that ua "1.prems"(1) by (simp add: nat_add_distrib)
    qed
    have "read_16 bo (big_endian st) dev
        (mem (fill_loop16 bo dev addr d32 inc n (i + 1) ?st)) (addr + 2 * word_of_int i)
        = read_16 bo (big_endian st) dev (mem ?st) (addr + 2 * word_of_int i)"
      using same by (rule read_16_cong)
    also have "\<dots> = ucast (d32 + word_of_int i * inc)"
      by (simp add: read_16_write_16)
    finally show ?thesis
      using unfold True by simp
  qed
qed

lemma unit_address1:
  "0 \<le> i \<Longrightarrow> unat a + nat i < 2 ^ 32 \<Longrightarrow>
     unat (a + word_of_int i :: u32) = unat a + nat i"
  using unit_address [of i a 1] by simp

lemma fill_loop8_frame:
  "0 \<le> i \<Longrightarrow> unat addr + nat n \<le> 2 ^ 32 \<Longrightarrow>
   p < dev_addr dev + unat addr + nat i \<Longrightarrow>
   mem (fill_loop8 dev addr d32 inc n i st) p = mem st p"
proof (induction dev addr d32 inc n i st rule: fill_loop8.induct)
  case (1 dev addr d32 inc n i st)
  show ?case
  proof (cases "i < n")
    case False
    then show ?thesis
      by (subst fill_loop8.simps) simp
  next
    case True
    let ?st = "st\<lparr>mem := write_8 dev (mem st) (addr + word_of_int i)
                            (ucast (d32 + word_of_int i * inc))\<rparr>"
    have bound: "unat addr + nat i < 2 ^ 32"
      using True "1.prems"(1,2) by linarith
    have ua: "unat (addr + word_of_int i) = unat addr + nat i"
      using "1.prems"(1) bound by (rule unit_address1)
    have "mem (fill_loop8 dev addr d32 inc n (i + 1) ?st) p = mem ?st p"
      using True "1.prems" "1.IH" [OF True] by (simp add: Let_def)
    also have "mem ?st p = mem st p"
      using "1.prems"(3) ua by (simp add: write_8_def)
    finally show ?thesis
      using True by (subst fill_loop8.simps) (simp add: Let_def)
  qed
qed

lemma fill_loop8_units:
  "0 \<le> i \<Longrightarrow> i \<le> j \<Longrightarrow> j < n \<Longrightarrow> unat addr + nat n \<le> 2 ^ 32 \<Longrightarrow>
   read_8 dev (mem (fill_loop8 dev addr d32 inc n i st)) (addr + word_of_int j)
     = ucast (d32 + word_of_int j * inc)"
proof (induction dev addr d32 inc n i st rule: fill_loop8.induct)
  case (1 dev addr d32 inc n i st)
  let ?st = "st\<lparr>mem := write_8 dev (mem st) (addr + word_of_int i)
                          (ucast (d32 + word_of_int i * inc))\<rparr>"
  have lt: "i < n"
    using "1.prems" by simp
  have unfold: "fill_loop8 dev addr d32 inc n i st
      = fill_loop8 dev addr d32 inc n (i + 1) ?st"
    using lt by (subst fill_loop8.simps) (simp add: Let_def)
  show ?case
  proof (cases "j = i")
    case False
    have "read_8 dev (mem (fill_loop8 dev addr d32 inc n (i + 1) ?st))
        (addr + word_of_int j) = ucast (d32 + word_of_int j * inc)"
      using False lt "1.prems" "1.IH" [OF lt] by (simp add: Let_def)
    then show ?thesis
      using unfold by simp
  next
    case True
    have bound: "unat addr + nat i < 2 ^ 32"
      using lt "1.prems"(1,4) by linarith
    have ua: "unat (addr + word_of_int i) = unat addr + nat i"
      using "1.prems"(1) bound by (rule unit_address1)
    have "mem (fill_loop8 dev addr d32 inc n (i + 1) ?st)
          (dev_addr dev + unat (addr + word_of_int i))
        = mem ?st (dev_addr dev + unat (addr + word_of_int i))"
    proof (rule fill_loop8_frame)
      show "0 \<le> i + 1"
        using "1.prems"(1) by simp
      show "unat addr + nat n \<le> 2 ^ 32"
        by (rule "1.prems"(4))
      show "dev_addr dev + unat (addr + word_of_int i) < dev_addr dev + unat addr + nat (i + 1)"
        using ua "1.prems"(1) by (simp add: nat_add_distrib)
    qed
    then have "read_8 dev (mem (fill_loop8 dev addr d32 inc n (i + 1) ?st))
        (addr + word_of_int i) = ucast (d32 + word_of_int i * inc)"
      by (simp add: read_8_def write_8_def)
    then show ?thesis
      using unfold True by simp
  qed
qed

lemma fill_fields_in_bounds:
  assumes "unat addr + unat len \<le> unat (dev_size dev)" and "unat len < 2 ^ 31"
  shows "fill_fields bo dev st 8 addr v len inc =
           (0, fill_loop8 dev addr v inc (uint len) 0 st)"
    and "fill_fields bo dev st 16 addr v len inc =
           (0, fill_loop16 bo dev addr v inc (int (unat len div 2)) 0 st)"
    and "fill_fields bo dev st 32 addr v len inc =
           (0, fill_loop32 bo dev addr v inc (int (unat len div 4)) 0 st)"
proof -
  have nb: "\<not> dev_size dev < addr" "\<not> dev_size dev < addr + len"
    using assms(1) start_in_bounds [of addr "unat len"] end_in_bounds [of addr len] by simp_all
  have "sint len = int (unat len)"
    using assms(2) by (rule sint_small)
  then have sl: "sint len = uint len"
    by simp
  have "int (unat len) div 2 = int (unat len div 2)"
    "int (unat len) div 4 = int (unat len div 4)"
    by (simp_all only: zdiv_int of_nat_numeral)
  then have d: "uint len sdiv 2 = int (unat len div 2)"
    "uint len sdiv 4 = int (unat len div 4)"
    by (simp_all add: sdiv_nonneg)
  show "fill_fields bo dev st 8 addr v len inc =
           (0, fill_loop8 dev addr v inc (uint len) 0 st)"
    using nb by (simp add: fill_fields_def sl)
  show "fill_fields bo dev st 16 addr v len inc =
           (0, fill_loop16 bo dev addr v inc (int (unat len div 2)) 0 st)"
    using nb by (simp add: fill_fields_def sl d)
  show "fill_fields bo dev st 32 addr v len inc =
           (0, fill_loop32 bo dev addr v inc (int (unat len div 4)) 0 st)"
    using nb by (simp add: fill_fields_def sl d)
qed

text \<open>
  C6, as the code has it: \<open>len\<close> is a C \<open>int\<close>. For an in-bounds fill
  (\<open>addr + len \<le> size\<close>) with \<open>len < 2 ^ 31\<close>, the unit at index \<open>i\<close>, at the address
  \<open>addr + i * width_bytes\<close>, holds \<open>value + i * increment\<close> truncated to the width after
  the command, for every index below \<open>len / width_bytes\<close>.
\<close>

theorem fill_writes_pattern:
  assumes "unat addr + unat len \<le> unat (dev_size dev)" and "unat len < 2 ^ 31"
  shows "(i < unat len \<longrightarrow>
            read_8 dev (mem (snd (fill_fields bo dev st 8 addr v len inc)))
              (addr + word_of_nat i) = ucast (v + word_of_nat i * inc))
       \<and> (i < unat len div 2 \<longrightarrow>
            read_16 bo (big_endian st) dev (mem (snd (fill_fields bo dev st 16 addr v len inc)))
              (addr + 2 * word_of_nat i) = ucast (v + word_of_nat i * inc))
       \<and> (i < unat len div 4 \<longrightarrow>
            read_32 bo (big_endian st) dev (mem (snd (fill_fields bo dev st 32 addr v len inc)))
              (addr + 4 * word_of_nat i) = v + word_of_nat i * inc)"
proof -
  have top: "unat (dev_size dev) < 2 ^ 32"
    using unsigned_less [of "dev_size dev"] by simp
  have b8: "unat addr + nat (uint len) \<le> 2 ^ 32"
    using assms(1) top by simp
  have b16: "unat addr + 2 * nat (int (unat len div 2)) \<le> 2 ^ 32"
    using assms(1) top by simp
  have b32: "unat addr + 4 * nat (int (unat len div 4)) \<le> 2 ^ 32"
    using assms(1) top by simp
  have u8: "read_8 dev (mem (snd (fill_fields bo dev st 8 addr v len inc)))
              (addr + word_of_nat i) = ucast (v + word_of_nat i * inc)"
    if "i < unat len"
  proof -
    have "int i < int (unat len)"
      using that by (rule of_nat_less_iff [THEN iffD2])
    then have "int i < uint len"
      by simp
    then show ?thesis
      using fill_loop8_units [of 0 "int i" "uint len" addr dev v inc st, OF _ _ _ b8]
      by (simp add: fill_fields_in_bounds(1) [OF assms])
  qed
  have u16: "read_16 bo (big_endian st) dev
              (mem (snd (fill_fields bo dev st 16 addr v len inc)))
              (addr + 2 * word_of_nat i) = ucast (v + word_of_nat i * inc)"
    if "i < unat len div 2"
    using that
      fill_loop16_units [of 0 "int i" "int (unat len div 2)" addr bo st dev v inc, OF _ _ _ b16]
    by (simp add: fill_fields_in_bounds(2) [OF assms])
  have u32: "read_32 bo (big_endian st) dev
              (mem (snd (fill_fields bo dev st 32 addr v len inc)))
              (addr + 4 * word_of_nat i) = v + word_of_nat i * inc"
    if "i < unat len div 4"
    using that
      fill_loop32_units [of 0 "int i" "int (unat len div 4)" addr bo st dev v inc, OF _ _ _ b32]
    by (simp add: fill_fields_in_bounds(3) [OF assms])
  show ?thesis
    using u8 u16 u32 by blast
qed

theorem fill_writes_pattern_witness:
  "unat (0 :: u32) + unat (0x10 :: u32) \<le> unat (dev_size dev16)
   \<and> unat (0x10 :: u32) < 2 ^ 31
   \<and> read_32 LITTLE_ENDIAN 0 dev16
        (mem (snd (fill_fields LITTLE_ENDIAN dev16 (initial_state zero_mem) 32 0 0xA5 0x10 1)))
        0 = 0xA5
   \<and> read_32 LITTLE_ENDIAN 0 dev16
        (mem (snd (fill_fields LITTLE_ENDIAN dev16 (initial_state zero_mem) 32 0 0xA5 0x10 1)))
        4 = 0xA6
   \<and> read_32 LITTLE_ENDIAN 0 dev16
        (mem (snd (fill_fields LITTLE_ENDIAN dev16 (initial_state zero_mem) 32 0 0xA5 0x10 1)))
        8 = 0xA7
   \<and> read_32 LITTLE_ENDIAN 0 dev16
        (mem (snd (fill_fields LITTLE_ENDIAN dev16 (initial_state zero_mem) 32 0 0xA5 0x10 1)))
        12 = 0xA8"
proof -
  have h1: "unat (0 :: u32) + unat (0x10 :: u32) \<le> unat (dev_size dev16)"
    by (simp add: dev16_def)
  have h2: "unat (0x10 :: u32) < 2 ^ 31"
    by simp
  have be: "big_endian (initial_state zero_mem) = 0"
    by (simp add: initial_state_def)
  show ?thesis
    using h1 h2
      fill_writes_pattern [OF h1 h2, of 0 LITTLE_ENDIAN "initial_state zero_mem" "0xA5" 1]
      fill_writes_pattern [OF h1 h2, of 1 LITTLE_ENDIAN "initial_state zero_mem" "0xA5" 1]
      fill_writes_pattern [OF h1 h2, of 2 LITTLE_ENDIAN "initial_state zero_mem" "0xA5" 1]
      fill_writes_pattern [OF h1 h2, of 3 LITTLE_ENDIAN "initial_state zero_mem" "0xA5" 1]
    by (simp add: be)
qed

text \<open>
  C6, as stated, fails: in a region of 2 GiB the fill of the whole region
  (\<open>addr = 0\<close>, \<open>len = 0x80000000\<close>) is in bounds, but \<open>len\<close> is negative as an \<open>int\<close>,
  the loop body never runs, and the unit at index 0 still holds 0, not \<open>0xA5\<close>.
\<close>

theorem fill_negative_length_counterexample:
  "unat (0 :: u32) + unat (0x80000000 :: u32) \<le> unat (dev_size dev2g)
   \<and> fill_fields LITTLE_ENDIAN dev2g (initial_state zero_mem) 32 0 0xA5 0x80000000 1 =
       (0, initial_state zero_mem)
   \<and> read_32 LITTLE_ENDIAN 0 dev2g
        (mem (snd (fill_fields LITTLE_ENDIAN dev2g (initial_state zero_mem) 32 0 0xA5
           0x80000000 1))) 0 = 0
   \<and> read_32 LITTLE_ENDIAN 0 dev2g
        (mem (snd (fill_fields LITTLE_ENDIAN dev2g (initial_state zero_mem) 32 0 0xA5
           0x80000000 1))) 0 \<noteq> 0xA5"
proof -
  have f: "fill_fields LITTLE_ENDIAN dev2g (initial_state zero_mem) 32 0 0xA5 0x80000000 1 =
       (0, initial_state zero_mem)"
    by (simp add: fill_fields_def dev2g_def fill_loop32.simps signed_divide_int_def)
  have r: "read_32 LITTLE_ENDIAN 0 dev2g (mem (initial_state zero_mem)) 0 = 0"
    by (simp add: read_32_def read_le32_def load32_def initial_state_def zero_mem_def)
  show ?thesis
    using f r by (simp add: dev2g_def)
qed

end
